theory Spec2Isabelle
  imports Main
begin

section \<open>JavaScript values used by the scheduler\<close>

text \<open>
  The scheduler under verification is \<open>server.js\<close> (the luxon based variant of
  \<open>checkDueSchedules\<close>); the tick of the older variant, which reads the server's local
  clock, is modelled after it.

  An optional string property of a JSON object is a \<open>string option\<close>: \<open>None\<close> is
  \<open>undefined\<close> (or \<open>null\<close>), \<open>Some s\<close> is the string \<open>s\<close>. Numbers are
  unbounded integers (the doubles of JavaScript are exact on every value the scheduler
  meets: millisecond timestamps and small counts). Characters are bytes; only ASCII
  white space is recognised by \<open>parseInt\<close>.
\<close>

definition truthy :: "string option \<Rightarrow> bool" where
  \<comment> \<open>JavaScript truthiness of an optional string: undefined and the empty string are falsy.\<close>
  "truthy v = (case v of None \<Rightarrow> False | Some s \<Rightarrow> s \<noteq> [])"

definition or_else :: "string option \<Rightarrow> string option \<Rightarrow> string option" where
  \<comment> \<open>\<open>a || b\<close>\<close>
  "or_else a b = (if truthy a then a else b)"

definition isDigit :: "char \<Rightarrow> bool" where
  "isDigit c = (48 \<le> (of_char c :: nat) \<and> (of_char c :: nat) \<le> 57)"

definition digitVal :: "char \<Rightarrow> int" where
  "digitVal c = int (of_char c) - 48"

definition isWhiteSpace :: "char \<Rightarrow> bool" where
  "isWhiteSpace c = ((of_char c :: nat) \<in> {9, 10, 11, 12, 13, 32})"

definition digitsVal :: "string \<Rightarrow> int" where
  "digitsVal ds = foldl (\<lambda>a c. 10 * a + digitVal c) 0 ds"

definition parseInt :: "string option \<Rightarrow> int option" where
  \<comment> \<open>\<open>parseInt(v, 10)\<close>: leading white space, an optional sign, then the longest prefix of
      decimal digits; \<open>None\<close> is NaN (no digit; \<open>undefined\<close> reads as the text "undefined").\<close>
  "parseInt v =
     (case v of
        None \<Rightarrow> None
      | Some s \<Rightarrow>
          (let t = dropWhile isWhiteSpace s;
               neg = (t \<noteq> [] \<and> hd t = CHR ''-'');
               r = (if t \<noteq> [] \<and> (hd t = CHR ''-'' \<or> hd t = CHR ''+'') then tl t else t);
               ds = takeWhile isDigit r
           in if ds = [] then None
              else Some (if neg then - digitsVal ds else digitsVal ds)))"

fun split :: "char \<Rightarrow> string \<Rightarrow> string list" where
  \<comment> \<open>\<open>s.split(c)\<close> for a one character separator: never empty, \<open>"".split(":")\<close> is \<open>[""]\<close>.\<close>
  "split c [] = [[]]"
| "split c (x # xs) =
     (if x = c then [] # split c xs
      else (case split c xs of [] \<Rightarrow> [[x]] | y # ys \<Rightarrow> (x # y) # ys))"

definition at_index :: "'a list \<Rightarrow> nat \<Rightarrow> 'a option" where
  \<comment> \<open>array destructuring: a missing position is \<open>undefined\<close>\<close>
  "at_index xs i = (if i < length xs then Some (xs ! i) else None)"

fun showNat :: "nat \<Rightarrow> string" where
  "showNat n = (if n < 10 then [char_of (48 + n)] else showNat (n div 10) @ [char_of (48 + n mod 10)])"

declare showNat.simps [simp del]

definition padStart :: "int \<Rightarrow> nat \<Rightarrow> string" where
  \<comment> \<open>luxon's \<open>padStart(input, n)\<close>: zero padding to \<open>n\<close> digits, the sign in front.\<close>
  "padStart i n =
     (let ds = showNat (nat \<bar>i\<bar>);
          padded = replicate (n - length ds) CHR ''0'' @ ds
      in if i < 0 then CHR ''-'' # padded else padded)"

definition toLowerCase :: "string \<Rightarrow> string" where
  "toLowerCase s =
     map (\<lambda>c. if 65 \<le> (of_char c :: nat) \<and> (of_char c :: nat) \<le> 90
               then char_of ((of_char c :: nat) + 32) else c) s"


section \<open>The date library: zones and zoned instants\<close>

text \<open>
  \<open>server.js\<close> computes with luxon's \<open>DateTime\<close>. The model keeps what the scheduler
  uses of it. A zone is modelled by its offset from UTC in minutes, the same at every
  instant: zones whose offset changes over the year (daylight saving) are outside the
  model. \<open>isUniversal\<close> is luxon's flag of a fixed-offset zone (it only decides whether
  \<open>toISO\<close> prints \<open>Z\<close> for offset 0). A \<open>DateTime\<close> is an epoch timestamp in
  milliseconds together with its zone; an invalid \<open>DateTime\<close> (unknown zone, unparsable
  text) is \<open>None\<close>, and comparing it (its \<open>valueOf()\<close> is NaN) is false.

  Timestamps are unbounded integers: the range of JavaScript's \<open>Date\<close> (8.64e15
  milliseconds either side of the epoch), beyond which luxon's \<open>DateTime\<close> is invalid,
  is not modelled. The claims whose statement depends on the arithmetic of wall clocks
  are stated for the fixed-offset zones (\<open>isUniversal\<close>: UTC, UTC+5:30 and the like)
  and for bounded values, on which these definitions compute what luxon computes.
\<close>

record zone =
  offset :: int
  isUniversal :: bool

record DateTime =
  ts :: int
  zone :: zone

text \<open>
  The process environment: the variables of \<open>.env\<close> the scheduler reads, the zone of
  the operating system (luxon's default zone) and the zone database (the offset of every
  IANA identifier the runtime recognises).
\<close>

record env =
  SERVER_TIMEZONE :: "string option"
  EMAIL_FROM :: "string option"
  EMAIL_USER :: "string option"
  systemZone :: zone
  ianaZone :: "string \<Rightarrow> int option"

definition utcInstance :: zone where
  "utcInstance = \<lparr>offset = 0, isUniversal = True\<rparr>"

definition signedOffset :: "string \<Rightarrow> string option \<Rightarrow> int" where
  \<comment> \<open>luxon's \<open>signedOffset(offHourStr, offMinuteStr)\<close>\<close>
  "signedOffset offHourStr offMinuteStr =
     (let offHour = (case parseInt (Some offHourStr) of None \<Rightarrow> 0 | Some h \<Rightarrow> h);
          offMin = (case parseInt offMinuteStr of None \<Rightarrow> 0 | Some m \<Rightarrow> m);
          offMinSigned = (if offHour < 0 \<or> take 1 offHourStr = ''-'' then - offMin else offMin)
      in offHour * 60 + offMinSigned)"

definition parseSpecifier :: "string \<Rightarrow> zone option" where
  \<comment> \<open>luxon's \<open>FixedOffsetZone.parseSpecifier\<close> on a lower-cased text: it matches
      \<open>utc\<close>, a sign, one or two digits and optionally a colon and two digits.\<close>
  "parseSpecifier s =
     (if take 3 s \<noteq> ''utc'' then None
      else let r = drop 3 s in
        if r = [] then Some \<lparr>offset = 0, isUniversal = True\<rparr>
        else if hd r \<noteq> CHR ''+'' \<and> hd r \<noteq> CHR ''-'' then None
        else let hs = takeWhile isDigit (tl r); rest = drop (length hs) (tl r) in
          if length hs < 1 \<or> 2 < length hs then None
          else if rest = [] then Some \<lparr>offset = signedOffset (hd r # hs) None, isUniversal = True\<rparr>
          else if hd rest = CHR '':'' \<and> length (tl rest) = 2 \<and> list_all isDigit (tl rest)
               then Some \<lparr>offset = signedOffset (hd r # hs) (Some (tl rest)), isUniversal = True\<rparr>
          else None)"

definition IANAZone_create :: "env \<Rightarrow> string \<Rightarrow> zone option" where
  \<comment> \<open>an identifier the runtime does not recognise (the empty text never is) gives an invalid
      zone; a recognised one is given the single offset the environment holds for it\<close>
  "IANAZone_create e s =
     (if s = [] then None
      else map_option (\<lambda>off. \<lparr>offset = off, isUniversal = False\<rparr>) (ianaZone e s))"

definition normalizeZone :: "env \<Rightarrow> string option \<Rightarrow> zone option" where
  \<comment> \<open>luxon's \<open>normalizeZone(input, Settings.defaultZone)\<close>; \<open>None\<close> is an invalid zone.
      \<open>server.js\<close> never sets the default zone, so it is the system zone.\<close>
  "normalizeZone e input =
     (case input of
        None \<Rightarrow> Some (systemZone e)
      | Some s \<Rightarrow>
          (let lowered = toLowerCase s in
             if lowered = ''default'' then Some (systemZone e)
             else if lowered = ''local'' \<or> lowered = ''system'' then Some (systemZone e)
             else if lowered = ''utc'' \<or> lowered = ''gmt'' then Some utcInstance
             else (case parseSpecifier lowered of
                     Some z \<Rightarrow> Some z
                   | None \<Rightarrow> IANAZone_create e s)))"

definition localTS :: "DateTime \<Rightarrow> int" where
  \<comment> \<open>the wall clock of the instant in its zone, as milliseconds since the epoch\<close>
  "localTS d = ts d + offset (zone d) * 60000"

definition DateTime_now :: "env \<Rightarrow> int \<Rightarrow> DateTime" where
  \<comment> \<open>\<open>DateTime.now()\<close> when the clock reads \<open>t\<close>\<close>
  "DateTime_now e t = \<lparr>ts = t, zone = systemZone e\<rparr>"

definition setZone :: "env \<Rightarrow> string option \<Rightarrow> DateTime \<Rightarrow> DateTime option" where
  \<comment> \<open>\<open>dt.setZone(z)\<close>: the same instant in another zone, invalid when the zone is\<close>
  "setZone e z d = map_option (\<lambda>zn. d\<lparr>zone := zn\<rparr>) (normalizeZone e z)"

definition startOf_minute :: "DateTime \<Rightarrow> DateTime" where
  "startOf_minute d = d\<lparr>ts := ts d - localTS d mod 60000\<rparr>"

definition startOf_day :: "DateTime \<Rightarrow> DateTime" where
  "startOf_day d = d\<lparr>ts := ts d - localTS d mod 86400000\<rparr>"

definition plus_days :: "int \<Rightarrow> DateTime \<Rightarrow> DateTime" where
  \<comment> \<open>\<open>dt.plus({days: n})\<close>: with one offset per zone, calendar days are 24 hours each\<close>
  "plus_days n d = d\<lparr>ts := ts d + n * 86400000\<rparr>"

definition plus_hours :: "int \<Rightarrow> DateTime \<Rightarrow> DateTime" where
  \<comment> \<open>\<open>dt.plus({hours: n})\<close>: the instant \<open>n\<close> hours later, in the same zone\<close>
  "plus_hours n d = d\<lparr>ts := ts d + n * 3600000\<rparr>"

definition endOf_day :: "DateTime \<Rightarrow> DateTime" where
  \<comment> \<open>luxon: \<open>this.plus({days: 1}).startOf('day').minus(1)\<close>\<close>
  "endOf_day d = (let n = startOf_day (plus_days 1 d) in n\<lparr>ts := ts n - 1\<rparr>)"

definition set_hour_minute :: "int \<Rightarrow> int \<Rightarrow> DateTime \<Rightarrow> DateTime" where
  \<comment> \<open>\<open>dt.set({hour: h, minute: m, second: 0, millisecond: 0})\<close>: the calendar day is kept
      and the fields are not range checked; like \<open>Date.UTC\<close>, an hour beyond 23 or a minute
      beyond 59 runs over into the following hours and days. (The years 0 to 99, which luxon
      treats apart, are outside the model.)\<close>
  "set_hour_minute h m d = d\<lparr>ts := ts d - localTS d mod 86400000 + h * 3600000 + m * 60000\<rparr>"

definition hour :: "DateTime \<Rightarrow> int" where
  "hour d = (localTS d mod 86400000) div 3600000"

definition minute :: "DateTime \<Rightarrow> int" where
  "minute d = (localTS d mod 3600000) div 60000"

definition second :: "DateTime \<Rightarrow> int" where
  "second d = (localTS d mod 60000) div 1000"

definition millisecond :: "DateTime \<Rightarrow> int" where
  "millisecond d = localTS d mod 1000"

definition toFormat_HHmm :: "DateTime \<Rightarrow> string" where
  \<comment> \<open>\<open>dt.toFormat("HH:mm")\<close>\<close>
  "toFormat_HHmm d = padStart (hour d) 2 @ '':'' @ padStart (minute d) 2"

subsection \<open>Calendar dates\<close>

definition isLeapYear :: "int \<Rightarrow> bool" where
  "isLeapYear y = (y mod 4 = 0 \<and> (y mod 100 \<noteq> 0 \<or> y mod 400 = 0))"

definition daysInMonth :: "int \<Rightarrow> int \<Rightarrow> int" where
  "daysInMonth y m =
     (if m = 2 then (if isLeapYear y then 29 else 28)
      else if m = 4 \<or> m = 6 \<or> m = 9 \<or> m = 11 then 30 else 31)"

definition daysFromCivil :: "int \<Rightarrow> int \<Rightarrow> int \<Rightarrow> int" where
  \<comment> \<open>the number of days from 1970-01-01 to the Gregorian date y-m-d\<close>
  "daysFromCivil y m d =
     (let y' = (if m \<le> 2 then y - 1 else y);
          era = y' div 400;
          yoe = y' - era * 400;
          doy = (153 * (if m > 2 then m - 3 else m + 9) + 2) div 5 + d - 1;
          doe = yoe * 365 + yoe div 4 - yoe div 100 + doy
      in era * 146097 + doe - 719468)"

definition civilFromDays :: "int \<Rightarrow> int \<times> int \<times> int" where
  \<comment> \<open>the Gregorian date (year, month, day) of a day number\<close>
  "civilFromDays z =
     (let z' = z + 719468;
          era = z' div 146097;
          doe = z' - era * 146097;
          yoe = (doe - doe div 1460 + doe div 36524 - doe div 146096) div 365;
          doy = doe - (365 * yoe + yoe div 4 - yoe div 100);
          mp = (5 * doy + 2) div 153;
          d = doy - (153 * mp + 2) div 5 + 1;
          m = (if mp < 10 then mp + 3 else mp - 9);
          y = yoe + era * 400
      in (if m \<le> 2 then y + 1 else y, m, d))"

definition parseISODate :: "string \<Rightarrow> (int \<times> int \<times> int) option" where
  \<comment> \<open>The calendar dates \<open>YYYY-MM-DD\<close>, the form \<open>toISODate()\<close> writes and the
      schedules carry. luxon reads further ISO 8601 forms (week and ordinal dates, dates
      with a time); they are outside the model and read as unparsable here.\<close>
  "parseISODate s =
     (if length s = 10 \<and> s ! 4 = CHR ''-'' \<and> s ! 7 = CHR ''-''
         \<and> list_all isDigit (take 4 s) \<and> list_all isDigit (take 2 (drop 5 s))
         \<and> list_all isDigit (drop 8 s)
      then (let y = digitsVal (take 4 s); m = digitsVal (take 2 (drop 5 s));
                d = digitsVal (drop 8 s)
            in if 1 \<le> m \<and> m \<le> 12 \<and> 1 \<le> d \<and> d \<le> daysInMonth y m
               then Some (y, m, d) else None)
      else None)"

definition fromISO :: "env \<Rightarrow> string option \<Rightarrow> string option \<Rightarrow> DateTime option" where
  \<comment> \<open>\<open>DateTime.fromISO(text, {zone: z})\<close> on a calendar date: midnight of that date in
      the interpretation zone \<open>z || default\<close>, then \<open>setZone(z)\<close>; a missing text is
      unparsable.\<close>
  "fromISO e txt z =
     (case (case txt of None \<Rightarrow> None | Some s \<Rightarrow> parseISODate s) of
        None \<Rightarrow> None
      | Some (y, m, d) \<Rightarrow>
          (case normalizeZone e (if truthy z then z else None) of
             None \<Rightarrow> None
           | Some iz \<Rightarrow>
               setZone e z \<lparr>ts = daysFromCivil y m d * 86400000 - offset iz * 60000, zone = iz\<rparr>))"

definition toISODate :: "DateTime \<Rightarrow> string" where
  "toISODate d =
     (case civilFromDays (localTS d div 86400000) of
        (y, m, dd) \<Rightarrow>
          (let longFormat = (y > 9999 \<or> y < 0) in
             (if longFormat \<and> y \<ge> 0 then ''+'' else '''')
             @ padStart y (if longFormat then 6 else 4) @ ''-'' @ padStart m 2 @ ''-'' @ padStart dd 2))"

definition toISOTime :: "DateTime \<Rightarrow> string" where
  "toISOTime d =
     padStart (hour d) 2 @ '':'' @ padStart (minute d) 2 @ '':'' @ padStart (second d) 2
     @ ''.'' @ padStart (millisecond d) 3
     @ (let off = offset (zone d) in
          if isUniversal (zone d) \<and> off = 0 then ''Z''
          else if off < 0 then ''-'' @ padStart ((- off) div 60) 2 @ '':'' @ padStart ((- off) mod 60) 2
          else ''+'' @ padStart (off div 60) 2 @ '':'' @ padStart (off mod 60) 2)"

definition toISO :: "DateTime \<Rightarrow> string" where
  \<comment> \<open>\<open>dt.toISO()\<close>, as in \<open>2024-01-01T09:00:00.000+05:30\<close>\<close>
  "toISO d = toISODate d @ ''T'' @ toISOTime d"


section \<open>The schedule registry and the dedup store\<close>

text \<open>
  A schedule as \<open>POST /addSchedule\<close> builds it and \<open>schedules.json\<close> stores it. Its
  property \<open>id\<close> is the field \<open>sched_id\<close> here. The properties the scheduler tests
  for presence (\<open>dosage\<close>, \<open>time\<close>, \<open>timezone\<close>) and the start date are optional;
  the duration is an integer.
\<close>

record schedule =
  sched_id :: string
  medicineName :: string
  dosage :: "string option"
  time :: "string option"
  frequency :: string
  duration :: int
  email :: string
  startDate :: "string option"
  timezone :: "string option"
  createdAt :: string

record mailOptions =
  mail_from :: "string option"
  mail_to :: string
  mail_subject :: string
  mail_text :: string
  mail_html :: string

text \<open>
  A request is one call of \<open>transporter.sendMail(mailOptions, callback)\<close>: the message
  and what the callback's closure holds (the schedule and the minute key).
\<close>

record request =
  req_schedule :: schedule
  minuteKey :: string
  req_mail :: mailOptions

text \<open>
  The state of the process: the two module variables \<open>schedules\<close> and \<open>lastSent\<close>,
  and the two files \<open>schedules.json\<close> and \<open>lastSent.json\<close> (\<open>None\<close>: the file is
  missing or does not parse). Writing a file is taken to succeed, and what is read back
  is what was written. The keys of \<open>lastSent\<close> are ordinary property names (the name
  \<open>__proto__\<close> is outside the model). Console output is left out.
\<close>

record state =
  schedules :: "schedule list"
  lastSent :: "string \<rightharpoonup> string"
  scheduleFile :: "schedule list option"
  lastSentFile :: "(string \<rightharpoonup> string) option"

datatype error = InvalidArgumentError

definition readJSON :: "'a option \<Rightarrow> 'a \<Rightarrow> 'a" where
  "readJSON file fallback = (case file of None \<Rightarrow> fallback | Some v \<Rightarrow> v)"

definition startup :: "state \<Rightarrow> state" where
  \<comment> \<open>loading the module: both variables are read from their files\<close>
  "startup st = st\<lparr>schedules := readJSON (scheduleFile st) [],
                   lastSent := readJSON (lastSentFile st) Map.empty\<rparr>"


section \<open>The tick of \<open>server.js\<close>\<close>

definition isWithinDuration :: "env \<Rightarrow> schedule \<Rightarrow> DateTime option \<Rightarrow> bool" where
  "isWithinDuration e s now =
     (case map_option startOf_day (fromISO e (startDate s) (timezone s)) of
        None \<Rightarrow> False
      | Some start \<Rightarrow>
          (let fin = endOf_day (plus_days (duration s - 1) start) in
             (case now of
                None \<Rightarrow> False
              | Some n \<Rightarrow> ts (startOf_day start) \<le> ts n \<and> ts n \<le> ts fin)))"

definition daysDiff :: "env \<Rightarrow> schedule \<Rightarrow> string option \<Rightarrow> DateTime \<Rightarrow> int option" where
  \<comment> \<open>\<open>Math.floor(now.startOf('day').diff(start, 'days').days)\<close> with
      \<open>start = DateTime.fromISO(schedule.startDate, {zone: tz}).startOf('day')\<close>; \<open>None\<close> is NaN.\<close>
  "daysDiff e s tz now =
     (case map_option startOf_day (fromISO e (startDate s) tz) of
        None \<Rightarrow> None
      | Some start \<Rightarrow> Some ((ts (startOf_day now) - ts start) div 86400000))"

definition candidates :: "env \<Rightarrow> schedule \<Rightarrow> string option \<Rightarrow> DateTime \<Rightarrow> DateTime \<Rightarrow> DateTime list" where
  \<comment> \<open>the \<open>switch\<close> on \<open>schedule.frequency\<close>\<close>
  "candidates e s tz now baseToday =
     (if frequency s = ''onceDaily'' then [baseToday]
      else if frequency s = ''twiceDaily'' then [baseToday, plus_hours 12 baseToday]
      else if frequency s = ''every8h''
        then [baseToday, plus_hours 8 baseToday, plus_hours 16 baseToday]
      else if frequency s = ''everyOtherDay''
        then (case daysDiff e s tz now of
                None \<Rightarrow> []
              | Some dd \<Rightarrow> if dd \<ge> 0 \<and> dd mod 2 = 0 then [baseToday] else [])
      else if frequency s = ''weekly''
        then (case daysDiff e s tz now of
                None \<Rightarrow> []
              | Some dd \<Rightarrow> if dd \<ge> 0 \<and> dd mod 7 = 0 then [baseToday] else [])
      else [baseToday])"

definition dosageText :: "schedule \<Rightarrow> string" where
  "dosageText s = (case dosage s of None \<Rightarrow> [] | Some d \<Rightarrow> if d = [] then [] else ''('' @ d @ '')'')"

definition mkMailOptions :: "env \<Rightarrow> schedule \<Rightarrow> mailOptions" where
  "mkMailOptions e s =
     \<lparr>mail_from = or_else (EMAIL_FROM e) (EMAIL_USER e),
      mail_to = email s,
      mail_subject = [CHR 0xE2, CHR 0x8F, CHR 0xB0] @ '' Time to take '' @ medicineName s,
      mail_text = ''It'' @ [CHR 0x27] @ ''s time to take '' @ medicineName s @ '' ''
                  @ dosageText s @ ''.'' @ [CHR 0x0A, CHR 0x0A] @ ''Take care!'',
      mail_html = ''<p>It'' @ [CHR 0x27] @ ''s time to take <strong>'' @ medicineName s
                  @ ''</strong> '' @ dosageText s @ ''.</p>''\<rparr>"

definition checkCandidate ::
  "env \<Rightarrow> (string \<rightharpoonup> string) \<Rightarrow> schedule \<Rightarrow> DateTime \<Rightarrow> DateTime \<Rightarrow> request list" where
  \<comment> \<open>the body of \<open>candidates.forEach\<close>: the sends it starts for one candidate\<close>
  "checkCandidate e ls s now dt =
     (if toFormat_HHmm dt \<noteq> toFormat_HHmm now then []
      else if ls (sched_id s) = Some (toISO now) then []
      else [\<lparr>req_schedule = s, minuteKey = toISO now, req_mail = mkMailOptions e s\<rparr>])"

datatype evaluation = Skipped | Raised error | Candidates DateTime "DateTime list"

definition scheduleTz :: "env \<Rightarrow> schedule \<Rightarrow> string option" where
  \<comment> \<open>\<open>const tz = schedule.timezone || process.env.SERVER_TIMEZONE || 'UTC'\<close>\<close>
  "scheduleTz e s = or_else (timezone s) (or_else (SERVER_TIMEZONE e) (Some ''UTC''))"

definition zonedNow :: "env \<Rightarrow> string option \<Rightarrow> int \<Rightarrow> DateTime option" where
  \<comment> \<open>\<open>const now = DateTime.now().setZone(tz).startOf('minute')\<close> when the clock reads \<open>t\<close>\<close>
  "zonedNow e tz t = map_option startOf_minute (setZone e tz (DateTime_now e t))"

definition timeParts :: "schedule \<Rightarrow> int option \<times> int option" where
  \<comment> \<open>\<open>const [hStr, mStr] = (schedule.time || '00:00').split(':')\<close> and the two
      \<open>parseInt(_, 10)\<close> of the next line\<close>
  "timeParts s =
     (let parts = split CHR '':'' (case or_else (time s) (Some ''00:00'') of
                                    None \<Rightarrow> [] | Some x \<Rightarrow> x)
      in (parseInt (at_index parts 0), parseInt (at_index parts 1)))"

definition candidateInstants :: "env \<Rightarrow> int \<Rightarrow> schedule \<Rightarrow> evaluation" where
  \<comment> \<open>The first half of the body of \<open>schedules.forEach\<close> when the clock reads \<open>t\<close>: the
      early return (\<open>Skipped\<close>), or \<open>now\<close> and the array \<open>candidates\<close>. \<open>set\<close> raises
      \<open>InvalidArgumentError\<close> on a NaN hour or minute.\<close>
  "candidateInstants e t s =
     (let tz = scheduleTz e s;
          now = zonedNow e tz t
      in if \<not> isWithinDuration e s now then Skipped
         else (case now of
                 None \<Rightarrow> Skipped
               | Some n \<Rightarrow>
                   (case timeParts s of
                      (Some hh, Some mm) \<Rightarrow>
                        Candidates n (candidates e s tz n (set_hour_minute hh mm n))
                    | _ \<Rightarrow> Raised InvalidArgumentError)))"

definition checkSchedule ::
  "env \<Rightarrow> (string \<rightharpoonup> string) \<Rightarrow> int \<Rightarrow> schedule \<Rightarrow> error + request list" where
  \<comment> \<open>the whole body of \<open>schedules.forEach\<close>: the sends one schedule starts, or the exception\<close>
  "checkSchedule e ls t s =
     (case candidateInstants e t s of
        Skipped \<Rightarrow> Inr []
      | Raised err \<Rightarrow> Inl err
      | Candidates n cs \<Rightarrow> Inr (concat (map (checkCandidate e ls s n) cs)))"

fun forEach_schedule ::
  "(schedule \<Rightarrow> error + request list) \<Rightarrow> schedule list \<Rightarrow> request list \<times> error option" where
  \<comment> \<open>\<open>schedules.forEach(f)\<close>: the sends started, and the exception that ended the loop, if any\<close>
  "forEach_schedule f [] = ([], None)"
| "forEach_schedule f (s # ss) =
     (case f s of
        Inl err \<Rightarrow> ([], Some err)
      | Inr rs \<Rightarrow> (case forEach_schedule f ss of (rs', r) \<Rightarrow> (rs @ rs', r)))"

definition checkDueSchedules :: "env \<Rightarrow> int \<Rightarrow> state \<Rightarrow> request list \<times> error option" where
  \<comment> \<open>One run of \<open>checkDueSchedules()\<close>, taken to read the clock once: it starts sends
      and writes nothing; \<open>lastSent\<close> changes later, in the callbacks.\<close>
  "checkDueSchedules e t st = forEach_schedule (checkSchedule e (lastSent st) t) (schedules st)"

definition sendMail_callback :: "request \<Rightarrow> bool \<Rightarrow> state \<Rightarrow> state" where
  \<comment> \<open>the callback of \<open>sendMail\<close>; \<open>err\<close> says whether the transport reported an error\<close>
  "sendMail_callback r err st =
     (if err then st
      else (let ls = (lastSent st)(sched_id (req_schedule r) \<mapsto> minuteKey r)
            in st\<lparr>lastSent := ls, lastSentFile := Some ls\<rparr>))"

fun run_callbacks :: "(request \<times> bool) list \<Rightarrow> state \<Rightarrow> state" where
  \<comment> \<open>callbacks completing one after the other, each with its outcome\<close>
  "run_callbacks [] st = st"
| "run_callbacks ((r, err) # cs) st = run_callbacks cs (sendMail_callback r err st)"

definition completeTick :: "env \<Rightarrow> int \<Rightarrow> (request \<Rightarrow> bool) \<Rightarrow> state \<Rightarrow> error + state" where
  \<comment> \<open>A tick followed by the callbacks of all its sends, in the order the sends were
      started; \<open>fails r\<close> says whether the transport reports an error for \<open>r\<close>. An exception
      in the loop is not caught anywhere: the process ends.\<close>
  "completeTick e t fails st =
     (case checkDueSchedules e t st of
        (rs, Some err) \<Rightarrow> Inl err
      | (rs, None) \<Rightarrow> Inr (run_callbacks (map (\<lambda>r. (r, fails r)) rs) st))"


section \<open>The HTTP handlers of \<open>server.js\<close>\<close>

record body =
  b_medicineName :: "string option"
  b_dosage :: "string option"
  b_time :: "string option"
  b_frequency :: "string option"
  b_duration :: "int option"
  b_email :: "string option"
  b_startDate :: "string option"
  b_timezone :: "string option"

datatype response = Success | BadRequest

definition showInt :: "int \<Rightarrow> string" where
  "showInt i = padStart i 0"

definition addSchedule :: "env \<Rightarrow> int \<Rightarrow> body \<Rightarrow> state \<Rightarrow> response \<times> state" where
  \<comment> \<open>\<open>POST /addSchedule\<close> when the clock reads \<open>t\<close>. The duration of the request is an
      integer when present.\<close>
  "addSchedule e t b st =
     (if \<not> truthy (b_medicineName b) \<or> \<not> truthy (b_time b) \<or> \<not> truthy (b_email b)
      then (BadRequest, st)
      else
        (let tz = or_else (b_timezone b) (or_else (SERVER_TIMEZONE e) (Some ''UTC''));
             sch = \<lparr>sched_id = showInt t,
                    medicineName = (case b_medicineName b of None \<Rightarrow> [] | Some x \<Rightarrow> x),
                    dosage = (case b_dosage b of None \<Rightarrow> Some [] | Some d \<Rightarrow> Some d),
                    time = b_time b,
                    frequency = (case b_frequency b of None \<Rightarrow> ''onceDaily'' | Some f \<Rightarrow> f),
                    duration = (case b_duration b of None \<Rightarrow> 7 | Some n \<Rightarrow> n),
                    email = (case b_email b of None \<Rightarrow> [] | Some x \<Rightarrow> x),
                    startDate = (if truthy (b_startDate b) then b_startDate b
                                 else map_option toISODate (setZone e tz (DateTime_now e t))),
                    timezone = tz,
                    createdAt = toISO \<lparr>ts = t, zone = utcInstance\<rparr>\<rparr>;
             scheds = schedules st @ [sch]
         in (Success, st\<lparr>schedules := scheds, scheduleFile := Some scheds\<rparr>)))"

definition listSchedules :: "state \<Rightarrow> schedule list" where
  \<comment> \<open>\<open>GET /schedules\<close>\<close>
  "listSchedules st = schedules st"

definition deleteSchedule :: "string \<Rightarrow> state \<Rightarrow> state" where
  \<comment> \<open>\<open>DELETE /schedules/:id\<close>\<close>
  "deleteSchedule i st =
     (let scheds = filter (\<lambda>s. sched_id s \<noteq> i) (schedules st)
      in st\<lparr>schedules := scheds, scheduleFile := Some scheds\<rparr>)"


section \<open>The tick of the older variant\<close>

text \<open>
  The second server file polls every 30 seconds and works on JavaScript's \<open>Date\<close> in the
  local zone of the server, which is modelled by its offset \<open>so\<close> from UTC in minutes.
  It has no window, no frequency, no timezone and no dedup store. \<open>Number_of\<close> is
  \<open>Number(text)\<close> on a decimal integer with optional sign and surrounding white space
  (the empty text is 0); other numeric literals (fractions, exponents, hexadecimal) are
  outside the model and read as NaN here.
\<close>

definition Number_of :: "string option \<Rightarrow> int option" where
  "Number_of v =
     (case v of
        None \<Rightarrow> None
      | Some s \<Rightarrow>
          (let t = rev (dropWhile isWhiteSpace (rev (dropWhile isWhiteSpace s)));
               neg = (t \<noteq> [] \<and> hd t = CHR ''-'');
               r = (if t \<noteq> [] \<and> (hd t = CHR ''-'' \<or> hd t = CHR ''+'') then tl t else t)
           in if t = [] then Some 0
              else if r \<noteq> [] \<and> list_all isDigit r
                then Some (if neg then - digitsVal r else digitsVal r)
              else None))"

definition doseTime_local :: "int \<Rightarrow> int \<Rightarrow> schedule \<Rightarrow> int option" where
  \<comment> \<open>\<open>doseTime\<close>: today's local midnight, then \<open>setHours(h, m, 0, 0)\<close>; \<open>None\<close> is an
      invalid date\<close>
  "doseTime_local so t s =
     (let parts = split CHR '':'' (case time s of None \<Rightarrow> [] | Some x \<Rightarrow> x);
          today = t - (t + so * 60000) mod 86400000
      in (case (Number_of (at_index parts 0), Number_of (at_index parts 1)) of
            (Some h, Some m) \<Rightarrow> Some (today + h * 3600000 + m * 60000)
          | _ \<Rightarrow> None))"

definition checkDueSchedules_local :: "int \<Rightarrow> int \<Rightarrow> schedule list \<Rightarrow> schedule list" where
  \<comment> \<open>the schedules for which the older \<open>checkDueSchedules\<close> calls \<open>sendEmail\<close> when the
      clock reads \<open>t\<close>\<close>
  "checkDueSchedules_local so t ss =
     filter (\<lambda>s. truthy (time s)
                \<and> (case doseTime_local so t s of
                      None \<Rightarrow> False
                    | Some d \<Rightarrow> \<bar>d - t\<bar> < 30 * 1000)) ss"


section \<open>Vocabulary of the statements\<close>

definition localDay :: "DateTime \<Rightarrow> int" where
  \<comment> \<open>the calendar day of an instant in its zone, as a day number (0 is 1970-01-01)\<close>
  "localDay d = localTS d div 86400000"

definition env_utc :: env where
  \<comment> \<open>a server with no variable set, the system zone UTC and an empty zone database\<close>
  "env_utc = \<lparr>SERVER_TIMEZONE = None, EMAIL_FROM = None, EMAIL_USER = None,
               systemZone = \<lparr>offset = 0, isUniversal = False\<rparr>,
               ianaZone = (\<lambda>s. None)\<rparr>"

definition sched_base :: schedule where
  \<comment> \<open>a seven day schedule from 2024-01-01, once a day at 09:00 in UTC+5:30\<close>
  "sched_base =
     \<lparr>sched_id = ''1704067200000'', medicineName = ''Aspirin'', dosage = Some ''100mg'',
      time = Some ''09:00'', frequency = ''onceDaily'', duration = 7,
      email = ''patient@example.org'', startDate = Some ''2024-01-01'',
      timezone = Some ''UTC+5:30'', createdAt = ''2024-01-01T00:00:00.000Z''\<rparr>"

definition sched_twice :: schedule where
  \<comment> \<open>twice a day from 22:00, in UTC\<close>
  "sched_twice = sched_base\<lparr>time := Some ''22:00'', frequency := ''twiceDaily'',
                            timezone := Some ''UTC''\<rparr>"

definition sched_eod :: schedule where
  \<comment> \<open>every other day from 2024-01-01 at 09:00 in UTC+5:30\<close>
  "sched_eod = sched_base\<lparr>frequency := ''everyOtherDay''\<rparr>"

definition at_0900_IST :: "int \<Rightarrow> DateTime" where
  \<comment> \<open>09:00 in UTC+5:30 (03:30 UTC), \<open>k\<close> days after 2024-01-01\<close>
  "at_0900_IST k = \<lparr>ts = 1704079800000 + k * 86400000, zone = \<lparr>offset = 330, isUniversal = True\<rparr>\<rparr>"

definition sched_inactive :: schedule where
  \<comment> \<open>the base schedule with a duration of zero days\<close>
  "sched_inactive = sched_base\<lparr>duration := 0\<rparr>"

definition sched_oneday :: schedule where
  \<comment> \<open>twice a day from 22:00 in UTC, active on 2024-01-01 only\<close>
  "sched_oneday = sched_twice\<lparr>duration := 1\<rparr>"

definition hasOwnZone :: "schedule \<Rightarrow> bool" where
  \<comment> \<open>the schedule names a zone, and not by one of luxon's names for the zone of the server\<close>
  "hasOwnZone s =
     (case timezone s of
        None \<Rightarrow> False
      | Some z \<Rightarrow> z \<noteq> [] \<and> toLowerCase z \<noteq> ''default'' \<and> toLowerCase z \<noteq> ''local''
                  \<and> toLowerCase z \<noteq> ''system'')"


definition env_ist :: env where
  \<comment> \<open>the server of \<open>env_utc\<close> with \<open>SERVER_TIMEZONE=UTC+5:30\<close>\<close>
  "env_ist = env_utc\<lparr>SERVER_TIMEZONE := Some ''UTC+5:30''\<rparr>"

definition sched_nozone :: schedule where
  \<comment> \<open>the base schedule without a timezone property\<close>
  "sched_nozone = sched_base\<lparr>timezone := None\<rparr>"

definition sched_mars :: schedule where
  \<comment> \<open>the base schedule in a zone no runtime knows\<close>
  "sched_mars = sched_base\<lparr>timezone := Some ''Mars/Phobos''\<rparr>"

definition sched_25 :: schedule where
  \<comment> \<open>the base schedule in UTC, with the time 25:00\<close>
  "sched_25 = sched_base\<lparr>time := Some ''25:00'', timezone := Some ''UTC''\<rparr>"

definition sched_notime :: schedule where
  \<comment> \<open>the base schedule in UTC, without a time\<close>
  "sched_notime = sched_base\<lparr>time := None, timezone := Some ''UTC''\<rparr>"

definition sched_early :: schedule where
  \<comment> \<open>the base schedule without a timezone property, with the time 02:00\<close>
  "sched_early = sched_base\<lparr>time := Some ''02:00'', timezone := None\<rparr>"

definition state_of :: "schedule list \<Rightarrow> state" where
  \<comment> \<open>the process just started on a registry file, with no dedup file\<close>
  "state_of ss = \<lparr>schedules = ss, lastSent = Map.empty, scheduleFile = Some ss,
                  lastSentFile = None\<rparr>"

definition req_base :: request where
  \<comment> \<open>the send for the base schedule in the minute 09:00 of 2024-01-01, on the server \<open>env_utc\<close>\<close>
  "req_base = \<lparr>req_schedule = sched_base, minuteKey = ''2024-01-01T09:00:00.000+05:30'',
               req_mail = mkMailOptions env_utc sched_base\<rparr>"

definition state_sent :: state where
  \<comment> \<open>the state after the send \<open>req_base\<close> succeeded\<close>
  "state_sent = sendMail_callback req_base False (state_of [sched_base])"

definition body_base :: body where
  \<comment> \<open>a request to add a schedule, with the defaults left to the server\<close>
  "body_base = \<lparr>b_medicineName = Some ''Ibuprofen'', b_dosage = None, b_time = Some ''21:30'',
                 b_frequency = None, b_duration = None, b_email = Some ''patient@example.org'',
                 b_startDate = None, b_timezone = None\<rparr>"


section \<open>Facts about the date library\<close>

lemma showNat_small: "n < 10 \<Longrightarrow> showNat n = [char_of (48 + n)]"
  by (simp add: showNat.simps)

lemma showNat_two: "10 \<le> n \<Longrightarrow> n < 100 \<Longrightarrow> showNat n = [char_of (48 + n div 10), char_of (48 + n mod 10)]"
  by (subst showNat.simps) (simp add: showNat_small)

lemma char_of_48: "char_of (48::nat) = CHR ''0''"
  by code_simp

lemma padStart_two:
  assumes "0 \<le> i" "i < 100"
  shows "padStart i 2 = [char_of (48 + nat i div 10), char_of (48 + nat i mod 10)]"
proof (cases "nat i < 10")
  case True
  then show ?thesis using assms by (simp add: padStart_def showNat_small char_of_48 [symmetric])
next
  case False
  then have "10 \<le> nat i" "nat i < 100" using assms by auto
  then show ?thesis using assms by (simp add: padStart_def showNat_two)
qed

lemma char_of_digit_inj:
  assumes "a < 10" "b < 10"
  shows "(char_of (48 + a :: nat) = char_of (48 + b)) = (a = b)"
proof -
  show ?thesis using assms by (simp add: char_of_eq_iff take_bit_eq_mod)
qed

lemma padStart_two_inj:
  assumes "0 \<le> i" "i < 100" "0 \<le> j" "j < 100"
  shows "(padStart i 2 = padStart j 2) = (i = j)"
proof -
  have d: "nat i div 10 < 10" "nat j div 10 < 10" "nat i mod 10 < 10" "nat j mod 10 < 10"
    using assms by auto
  have "(padStart i 2 = padStart j 2) = (nat i div 10 = nat j div 10 \<and> nat i mod 10 = nat j mod 10)"
    using assms d by (simp add: padStart_two char_of_digit_inj)
  also have "\<dots> = (nat i = nat j)"
    by (metis div_mult_mod_eq)
  finally show ?thesis using assms by auto
qed

lemma padStart_two_length: "0 \<le> i \<Longrightarrow> i < 100 \<Longrightarrow> length (padStart i 2) = 2"
  by (simp add: padStart_two)

lemma hour_range: "0 \<le> hour d \<and> hour d < 24"
proof -
  have "0 \<le> localTS d mod 86400000" "localTS d mod 86400000 < 86400000" by simp_all
  then show ?thesis unfolding hour_def by linarith
qed

lemma minute_range: "0 \<le> minute d \<and> minute d < 60"
proof -
  have "0 \<le> localTS d mod 3600000" "localTS d mod 3600000 < 3600000" by simp_all
  then show ?thesis unfolding minute_def by linarith
qed


lemma toFormat_HHmm_eq_iff:
  "(toFormat_HHmm a = toFormat_HHmm b) = (hour a = hour b \<and> minute a = minute b)"
proof -
  have l: "length (padStart (hour a) 2) = length (padStart (hour b) 2)"
    using hour_range [of a] hour_range [of b] by (simp add: padStart_two_length)
  have "(toFormat_HHmm a = toFormat_HHmm b) =
        (padStart (hour a) 2 = padStart (hour b) 2 \<and> padStart (minute a) 2 = padStart (minute b) 2)"
    unfolding toFormat_HHmm_def using l by simp
  also have "\<dots> = (hour a = hour b \<and> minute a = minute b)"
    using hour_range [of a] hour_range [of b] minute_range [of a] minute_range [of b]
    by (simp add: padStart_two_inj)
  finally show ?thesis .
qed

lemma msOfDay_split:
  assumes "localTS d mod 60000 = 0"
  shows "localTS d mod 86400000 = hour d * 3600000 + minute d * 60000"
proof -
  have a: "(localTS d mod 86400000) mod 3600000 = localTS d mod 3600000"
    by (rule mod_mod_cancel) simp
  have b: "(localTS d mod 3600000) mod 60000 = localTS d mod 60000"
    by (rule mod_mod_cancel) simp
  have "localTS d mod 86400000 = hour d * 3600000 + localTS d mod 3600000"
    unfolding hour_def using a by (metis div_mult_mod_eq)
  moreover have "localTS d mod 3600000 = minute d * 60000 + localTS d mod 60000"
    unfolding minute_def using b by (metis div_mult_mod_eq)
  ultimately show ?thesis using assms by simp
qed

lemma wall_clock_eq_iff:
  assumes "localTS a mod 60000 = 0" "localTS b mod 60000 = 0"
  shows "(hour a = hour b \<and> minute a = minute b) = ((localTS a - localTS b) mod 86400000 = 0)"
proof
  assume "hour a = hour b \<and> minute a = minute b"
  then have "localTS a mod 86400000 = localTS b mod 86400000"
    using assms by (simp add: msOfDay_split)
  then show "(localTS a - localTS b) mod 86400000 = 0"
    by (simp add: mod_eq_dvd_iff)
next
  assume "(localTS a - localTS b) mod 86400000 = 0"
  then have e: "localTS a mod 86400000 = localTS b mod 86400000"
    by (simp add: mod_eq_dvd_iff mod_eq_0_iff_dvd)
  have "(localTS a mod 86400000) mod 3600000 = (localTS b mod 86400000) mod 3600000"
    using e by simp
  then have "localTS a mod 3600000 = localTS b mod 3600000"
    by (simp add: mod_mod_cancel)
  then show "hour a = hour b \<and> minute a = minute b"
    using e by (simp add: hour_def minute_def)
qed

lemma localTS_set_hour_minute:
  "localTS (set_hour_minute h m d) = (localTS d div 86400000) * 86400000 + h * 3600000 + m * 60000"
  by (simp add: set_hour_minute_def localTS_def minus_mod_eq_div_mult [symmetric])

lemma localTS_plus_hours: "localTS (plus_hours k d) = localTS d + k * 3600000"
  by (simp add: plus_hours_def localTS_def)

lemma zone_set_hour_minute: "zone (set_hour_minute h m d) = zone d"
  by (simp add: set_hour_minute_def)

lemma zone_plus_hours: "zone (plus_hours k d) = zone d"
  by (simp add: plus_hours_def)

lemma candidates_cases:
  assumes "dt \<in> set (candidates e s tz n b)"
  shows "dt = b \<or> dt = plus_hours 12 b \<or> dt = plus_hours 8 b \<or> dt = plus_hours 16 b"
  using assms by (auto simp: candidates_def split: if_splits option.splits)

lemma aligned_set_hour_minute: "localTS (set_hour_minute h m d) mod 60000 = 0"
proof -
  have "localTS (set_hour_minute h m d) = 60000 * ((localTS d div 86400000) * 1440 + h * 60 + m)"
    by (simp add: localTS_set_hour_minute)
  then show ?thesis by simp
qed

lemma aligned_plus_hours:
  assumes "localTS d mod 60000 = 0"
  shows "localTS (plus_hours k d) mod 60000 = 0"
proof -
  have "localTS (plus_hours k d) = localTS d + 60000 * (k * 60)"
    by (simp add: localTS_plus_hours)
  then show ?thesis using assms by (simp add: mod_add_eq [symmetric] del: mod_add_eq)
qed

lemma localTS_startOf_minute: "localTS (startOf_minute d) = (localTS d div 60000) * 60000"
proof -
  have "localTS (startOf_minute d) = localTS d - localTS d mod 60000"
    unfolding startOf_minute_def localTS_def by simp
  then show ?thesis by (simp add: minus_mod_eq_div_mult)
qed

lemma aligned_startOf_minute: "localTS (startOf_minute d) mod 60000 = 0"
  by (simp add: localTS_startOf_minute)


lemma zone_startOf_minute: "zone (startOf_minute d) = zone d"
  by (simp add: startOf_minute_def)

lemma zonedNow_SomeD:
  assumes "zonedNow e tz t = Some n"
  shows "\<exists>z. normalizeZone e tz = Some z \<and> n = startOf_minute \<lparr>ts = t, zone = z\<rparr>"
  using assms by (auto simp: zonedNow_def setZone_def DateTime_now_def)

lemma aligned_zonedNow: "zonedNow e tz t = Some n \<Longrightarrow> localTS n mod 60000 = 0"
  using zonedNow_SomeD aligned_startOf_minute by blast


section \<open>Facts about the evaluation of one schedule\<close>

lemma candidateInstants_CandidatesD:
  assumes "candidateInstants e t s = Candidates n cs"
  shows "\<exists>hh mm. zonedNow e (scheduleTz e s) t = Some n \<and> isWithinDuration e s (Some n)
           \<and> timeParts s = (Some hh, Some mm)
           \<and> cs = candidates e s (scheduleTz e s) n (set_hour_minute hh mm n)"
  using assms
  by (auto simp: candidateInstants_def Let_def split: if_splits option.splits prod.splits)

lemma candidate_zone_aligned:
  assumes "dt \<in> set (candidates e s tz n (set_hour_minute hh mm n))"
  shows "zone dt = zone n \<and> localTS dt mod 60000 = 0"
  using candidates_cases [OF assms]
  by (auto simp: zone_plus_hours zone_set_hour_minute aligned_plus_hours aligned_set_hour_minute)


lemma candidate_due_iff:
  assumes "candidateInstants e t s = Candidates n cs" and "dt \<in> set cs"
  shows "(toFormat_HHmm dt = toFormat_HHmm n) = (hour dt = hour n \<and> minute dt = minute n)
       \<and> (toFormat_HHmm dt = toFormat_HHmm n) = ((ts dt - ts n) mod 86400000 = 0)"
proof -
  obtain hh mm where now: "zonedNow e (scheduleTz e s) t = Some n"
    and cs: "cs = candidates e s (scheduleTz e s) n (set_hour_minute hh mm n)"
    using candidateInstants_CandidatesD [OF assms(1)] by blast
  have n: "localTS n mod 60000 = 0" using now by (rule aligned_zonedNow)
  have dt: "zone dt = zone n" "localTS dt mod 60000 = 0"
    using candidate_zone_aligned assms(2) cs by blast+
  have "localTS dt - localTS n = ts dt - ts n"
    using dt(1) by (simp add: localTS_def)
  then show ?thesis
    using wall_clock_eq_iff [OF dt(2) n] by (simp add: toFormat_HHmm_eq_iff)
qed


section \<open>The claims\<close>

text \<open>
  C1 (as amended). A candidate is due exactly when its wall-clock hour and minute, in the
  schedule's zone, are those of the minute-truncated current time \<open>now\<close>: the guard of
  \<open>candidates.forEach\<close> compares \<open>toFormat("HH:mm")\<close> and not the instants, so
  the calendar date plays no part. A send is started for a due candidate unless the
  last-sent entry of the schedule is the key of this minute. The candidates of a tick and
  \<open>now\<close> are all in the zone \<open>tz\<close> of the schedule.
\<close>

theorem due_iff_same_wall_clock:
  "(toFormat_HHmm dt = toFormat_HHmm n) = (hour dt = hour n \<and> minute dt = minute n)
   \<and> (checkCandidate e ls s n dt \<noteq> [])
       = (hour dt = hour n \<and> minute dt = minute n \<and> ls (sched_id s) \<noteq> Some (toISO n))
   \<and> (candidateInstants e t s = Candidates n cs \<and> dt \<in> set cs
        \<longrightarrow> zone dt = zone n \<and> normalizeZone e (scheduleTz e s) = Some (zone n))"
proof (intro conjI impI)
  show "(toFormat_HHmm dt = toFormat_HHmm n) = (hour dt = hour n \<and> minute dt = minute n)"
    by (rule toFormat_HHmm_eq_iff)
  show "(checkCandidate e ls s n dt \<noteq> [])
       = (hour dt = hour n \<and> minute dt = minute n \<and> ls (sched_id s) \<noteq> Some (toISO n))"
    by (auto simp: checkCandidate_def toFormat_HHmm_eq_iff)
next
  assume a: "candidateInstants e t s = Candidates n cs \<and> dt \<in> set cs"
  then obtain hh mm where now: "zonedNow e (scheduleTz e s) t = Some n"
    and cs: "cs = candidates e s (scheduleTz e s) n (set_hour_minute hh mm n)"
    using candidateInstants_CandidatesD by blast
  show "zone dt = zone n"
    using candidate_zone_aligned a cs by blast
  show "normalizeZone e (scheduleTz e s) = Some (zone n)"
    using zonedNow_SomeD [OF now] by (auto simp: zone_startOf_minute)
qed

theorem due_iff_same_wall_clock_witness:
  "candidateInstants env_utc 1704103200000 sched_twice =
     Candidates \<lparr>ts = 1704103200000, zone = utcInstance\<rparr>
       [\<lparr>ts = 1704146400000, zone = utcInstance\<rparr>, \<lparr>ts = 1704189600000, zone = utcInstance\<rparr>]
   \<and> toISO \<lparr>ts = 1704103200000, zone = utcInstance\<rparr> = ''2024-01-01T10:00:00.000Z''
   \<and> toISO \<lparr>ts = 1704189600000, zone = utcInstance\<rparr> = ''2024-01-02T10:00:00.000Z''
   \<and> hour \<lparr>ts = 1704189600000, zone = utcInstance\<rparr> = 10
   \<and> hour \<lparr>ts = 1704103200000, zone = utcInstance\<rparr> = 10
   \<and> minute \<lparr>ts = 1704189600000, zone = utcInstance\<rparr> = 0
   \<and> minute \<lparr>ts = 1704103200000, zone = utcInstance\<rparr> = 0
   \<and> toFormat_HHmm \<lparr>ts = 1704189600000, zone = utcInstance\<rparr>
       = toFormat_HHmm \<lparr>ts = 1704103200000, zone = utcInstance\<rparr>
   \<and> checkCandidate env_utc Map.empty sched_twice \<lparr>ts = 1704103200000, zone = utcInstance\<rparr>
         \<lparr>ts = 1704189600000, zone = utcInstance\<rparr> \<noteq> []
   \<and> scheduleTz env_utc sched_twice = Some ''UTC''
   \<and> normalizeZone env_utc (Some ''UTC'') = Some utcInstance"
proof -
  let ?n = "\<lparr>ts = 1704103200000, zone = utcInstance\<rparr>"
  let ?dt = "\<lparr>ts = 1704189600000, zone = utcInstance\<rparr>"
  have c: "candidateInstants env_utc 1704103200000 sched_twice =
     Candidates ?n [\<lparr>ts = 1704146400000, zone = utcInstance\<rparr>, ?dt]"
    by code_simp
  have m: "?dt \<in> set [\<lparr>ts = 1704146400000, zone = utcInstance\<rparr>, ?dt]" by simp
  have i: "toISO ?n = ''2024-01-01T10:00:00.000Z''" "toISO ?dt = ''2024-01-02T10:00:00.000Z''"
    by code_simp+
  have h: "hour ?dt = 10" "hour ?n = 10" "minute ?dt = 0" "minute ?n = 0"
    by code_simp+
  have l: "(Map.empty :: string \<rightharpoonup> string) (sched_id sched_twice) \<noteq> Some (toISO ?n)" by simp
  have tz: "scheduleTz env_utc sched_twice = Some ''UTC''" by code_simp
  note th = due_iff_same_wall_clock [where dt = ?dt and n = ?n and e = env_utc and ls = Map.empty
      and s = sched_twice and t = 1704103200000
      and cs = "[\<lparr>ts = 1704146400000, zone = utcInstance\<rparr>, ?dt]"]
  have f: "toFormat_HHmm ?dt = toFormat_HHmm ?n"
    using th [THEN conjunct1] h by simp
  have k: "checkCandidate env_utc Map.empty sched_twice ?n ?dt \<noteq> []"
    using th [THEN conjunct2, THEN conjunct1] h l by simp
  have z: "zone ?dt = zone ?n \<and> normalizeZone env_utc (scheduleTz env_utc sched_twice) = Some (zone ?n)"
    by (rule th [THEN conjunct2, THEN conjunct2, THEN mp]) (intro conjI c m)
  show ?thesis using c i h f k tz z by simp
qed

text \<open>
  C1 as stated fails. On 2024-01-01 at 10:00 UTC the twice-daily schedule based at 22:00
  has the candidates 2024-01-01T22:00 and 2024-01-02T10:00. The second is not the
  current minute (it is a day later), yet it passes the guard and a send is started.
\<close>

theorem due_not_same_instant_counterexample:
  "candidateInstants env_utc 1704103200000 sched_twice =
     Candidates \<lparr>ts = 1704103200000, zone = utcInstance\<rparr>
       [\<lparr>ts = 1704146400000, zone = utcInstance\<rparr>, \<lparr>ts = 1704189600000, zone = utcInstance\<rparr>]
   \<and> startOf_minute \<lparr>ts = 1704189600000, zone = utcInstance\<rparr>
       \<noteq> \<lparr>ts = 1704103200000, zone = utcInstance\<rparr>
   \<and> toISO \<lparr>ts = 1704189600000, zone = utcInstance\<rparr> = ''2024-01-02T10:00:00.000Z''
   \<and> checkCandidate env_utc Map.empty sched_twice \<lparr>ts = 1704103200000, zone = utcInstance\<rparr>
         \<lparr>ts = 1704189600000, zone = utcInstance\<rparr>
       = [\<lparr>req_schedule = sched_twice, minuteKey = ''2024-01-01T10:00:00.000Z'',
           req_mail = mkMailOptions env_utc sched_twice\<rparr>]"
  by code_simp

lemma truthy_scheduleTz: "truthy (scheduleTz e s)"
  by (simp add: scheduleTz_def or_else_def truthy_def split: option.splits)

lemma fromISO_date:
  assumes "parseISODate txt = Some (y, m, d)" and "truthy z" and "normalizeZone e z = Some zn"
  shows "fromISO e (Some txt) z
         = Some \<lparr>ts = daysFromCivil y m d * 86400000 - offset zn * 60000, zone = zn\<rparr>"
  using assms by (simp add: fromISO_def setZone_def)

lemma localTS_fromISO_date:
  "localTS \<lparr>ts = dn * 86400000 - offset zn * 60000, zone = zn\<rparr> = dn * 86400000"
  by (simp add: localTS_def)

lemma startOf_day_midnight:
  assumes "localTS d mod 86400000 = 0"
  shows "startOf_day d = d"
  using assms by (simp add: startOf_day_def)

lemma localTS_startOf_day: "localTS (startOf_day d) = localDay d * 86400000"
proof -
  have "localTS (startOf_day d) = localTS d - localTS d mod 86400000"
    unfolding startOf_day_def localTS_def by simp
  then show ?thesis by (simp add: localDay_def minus_mod_eq_div_mult)
qed

lemma daysDiff_calendar:
  assumes "parseISODate txt = Some (y, m, d)" and "startDate s = Some txt"
    and "truthy tz" and "normalizeZone e tz = Some zn" and "zone n = zn"
  shows "daysDiff e s tz n = Some (localDay n - daysFromCivil y m d)"
proof -
  let ?start = "\<lparr>ts = daysFromCivil y m d * 86400000 - offset zn * 60000, zone = zn\<rparr>"
  have f: "fromISO e (startDate s) tz = Some ?start"
    using assms by (simp add: fromISO_date)
  have s: "startOf_day ?start = ?start"
    by (rule startOf_day_midnight) (simp add: localTS_fromISO_date)
  have "ts (startOf_day n) - ts ?start = localTS (startOf_day n) - localTS ?start"
    using assms(5) by (simp add: localTS_def startOf_day_def)
  also have "\<dots> = (localDay n - daysFromCivil y m d) * 86400000"
    by (simp add: localTS_startOf_day localTS_fromISO_date algebra_simps)
  finally have "(ts (startOf_day n) - ts ?start) div 86400000 = localDay n - daysFromCivil y m d"
    by simp
  then show ?thesis using f s by (simp add: daysDiff_def)
qed

lemma base_today:
  assumes "0 \<le> hh" "hh < 24" "0 \<le> mm" "mm < 60"
  shows "localDay (set_hour_minute hh mm n) = localDay n
       \<and> hour (set_hour_minute hh mm n) = hh \<and> minute (set_hour_minute hh mm n) = mm
       \<and> second (set_hour_minute hh mm n) = 0 \<and> millisecond (set_hour_minute hh mm n) = 0"
proof -
  define r where "r = hh * 3600000 + mm * 60000"
  define L where "L = localTS n div 86400000"
  have l: "localTS (set_hour_minute hh mm n) = L * 86400000 + r"
    by (simp add: localTS_set_hour_minute r_def L_def)
  have r: "0 \<le> r" "r < 86400000" using assms by (simp_all add: r_def)
  have d: "(L * 86400000 + r) div 86400000 = L" using r by simp
  have m: "(L * 86400000 + r) mod 86400000 = r" using r by simp
  have m2: "(L * 86400000 + r) mod 3600000 = mm * 60000"
  proof -
    have "L * 86400000 + r = mm * 60000 + 3600000 * (L * 24 + hh)" by (simp add: r_def)
    then have "(L * 86400000 + r) mod 3600000 = (mm * 60000) mod 3600000"
      by (metis mod_mult_self2)
    then show ?thesis using assms by simp
  qed
  have m3: "(L * 86400000 + r) mod 60000 = 0"
  proof -
    have "L * 86400000 + r = 60000 * (L * 1440 + hh * 60 + mm)" by (simp add: r_def)
    then show ?thesis by simp
  qed
  have m4: "(L * 86400000 + r) mod 1000 = 0"
  proof -
    have "L * 86400000 + r = 1000 * (L * 86400 + hh * 3600 + mm * 60)" by (simp add: r_def)
    then show ?thesis by simp
  qed
  have h: "r div 3600000 = hh"
  proof -
    have b: "0 \<le> mm * 60000" "mm * 60000 < 3600000" using assms by simp_all
    have "r div 3600000 = (mm * 60000 + hh * 3600000) div 3600000" by (simp add: r_def)
    also have "\<dots> = hh + (mm * 60000) div 3600000" by simp
    also have "(mm * 60000) div 3600000 = 0" using b by (rule div_pos_pos_trivial)
    finally show ?thesis by simp
  qed
  have "localDay (set_hour_minute hh mm n) = L"
    unfolding localDay_def l by (rule d)
  moreover have "hour (set_hour_minute hh mm n) = hh"
    unfolding hour_def l m by (rule h)
  moreover have "minute (set_hour_minute hh mm n) = mm"
    unfolding minute_def l m2 by simp
  moreover have "second (set_hour_minute hh mm n) = 0"
    unfolding second_def l m3 by simp
  moreover have "millisecond (set_hour_minute hh mm n) = 0"
    unfolding millisecond_def l by (rule m4)
  ultimately show ?thesis by (simp add: L_def localDay_def)
qed


lemma normalizeZone_empty: "normalizeZone e (Some []) = None"
  by (simp add: normalizeZone_def toLowerCase_def parseSpecifier_def IANAZone_create_def)

lemma fromISO_SomeD:
  assumes "fromISO e txt z = Some d"
  shows "\<exists>txt' y m da zn. txt = Some txt' \<and> parseISODate txt' = Some (y, m, da)
           \<and> normalizeZone e z = Some zn
           \<and> d = \<lparr>ts = daysFromCivil y m da * 86400000 - offset zn * 60000, zone = zn\<rparr>"
proof (cases z)
  case None
  then show ?thesis using assms
    by (auto simp: fromISO_def setZone_def truthy_def split: option.splits)
next
  case (Some a)
  show ?thesis
  proof (cases "a = []")
    case True
    then show ?thesis using assms Some
      by (auto simp: fromISO_def setZone_def normalizeZone_empty split: option.splits)
  next
    case False
    then show ?thesis using assms Some
      by (auto simp: fromISO_def setZone_def truthy_def split: option.splits)
  qed
qed

lemma fromISO_midnight:
  assumes "fromISO e txt z = Some d"
  shows "localTS d mod 86400000 = 0"
  using fromISO_SomeD [OF assms] by (auto simp: localTS_def)

lemma endOf_day_plus_days:
  assumes "localTS d mod 86400000 = 0"
  shows "ts (endOf_day (plus_days k d)) = ts d + (k + 1) * 86400000 - 1"
proof -
  have "localTS (plus_days 1 (plus_days k d)) = localTS d + (k + 1) * 86400000"
    by (simp add: plus_days_def localTS_def algebra_simps)
  then have "localTS (plus_days 1 (plus_days k d)) mod 86400000 = 0"
    using assms by (simp add: mod_add_eq [symmetric] del: mod_add_eq)
  then have "startOf_day (plus_days 1 (plus_days k d)) = plus_days 1 (plus_days k d)"
    by (rule startOf_day_midnight)
  then show ?thesis
    by (simp add: endOf_day_def plus_days_def algebra_simps)
qed

lemma isWithinDuration_iff:
  assumes "fromISO e (startDate s) (timezone s) = Some st"
  shows "isWithinDuration e s (Some n)
         = (ts st \<le> ts n \<and> ts n \<le> ts st + duration s * 86400000 - 1)"
proof -
  have m: "localTS st mod 86400000 = 0" using assms by (rule fromISO_midnight)
  have s: "startOf_day st = st" using m by (rule startOf_day_midnight)
  have f: "ts (endOf_day (plus_days (duration s - 1) st)) = ts st + duration s * 86400000 - 1"
    using endOf_day_plus_days [OF m, of "duration s - 1"] by simp
  show ?thesis
    unfolding isWithinDuration_def assms option.map option.case s Let_def f by simp
qed

lemma isWithinDuration_SomeD:
  assumes "isWithinDuration e s now"
  shows "\<exists>st n. fromISO e (startDate s) (timezone s) = Some st \<and> now = Some n"
  using assms by (auto simp: isWithinDuration_def Let_def split: option.splits)

lemma scheduleTz_own: "truthy (timezone s) \<Longrightarrow> scheduleTz e s = timezone s"
  by (simp add: scheduleTz_def or_else_def)

lemma not_within_nonpositive_duration:
  assumes "duration s \<le> 0"
  shows "\<not> isWithinDuration e s now"
proof
  assume w: "isWithinDuration e s now"
  then obtain st n where st: "fromISO e (startDate s) (timezone s) = Some st" and n: "now = Some n"
    using isWithinDuration_SomeD by blast
  have "ts st \<le> ts n \<and> ts n \<le> ts st + duration s * 86400000 - 1"
    using w n isWithinDuration_iff [OF st] by simp
  moreover have "duration s * 86400000 \<le> 0" using assms by simp
  ultimately show False by linarith
qed

lemma localDay_bounds: "localDay d * 86400000 \<le> localTS d \<and> localTS d < localDay d * 86400000 + 86400000"
proof -
  have "localTS d = localDay d * 86400000 + localTS d mod 86400000"
    by (simp add: localDay_def)
  moreover have "0 \<le> localTS d mod 86400000" "localTS d mod 86400000 < 86400000" by simp_all
  ultimately show ?thesis by linarith
qed

text \<open>
  C4 (as amended). The window is checked on the tick, not on each candidate. A schedule
  whose duration is zero or negative is skipped at every tick. For a schedule with a
  timezone of its own, a tick whose current date in that zone is before the start date or
  after the last day (start date + duration - 1) skips the schedule: no candidate is
  produced outside the window \<open>[startDate 00:00, startDate + duration - 1 days 23:59:59]\<close>
  in this sense. (A candidate itself, such as \<open>base + 12h\<close> on the last day, may still lie
  after the end of the window.)
\<close>

theorem no_candidates_outside_window:
  "(duration s \<le> 0 \<longrightarrow> candidateInstants e t s = Skipped)
   \<and> (truthy (timezone s) \<and> startDate s = Some txt \<and> parseISODate txt = Some (y, mo, da)
        \<and> zonedNow e (timezone s) t = Some n
        \<and> (localDay n < daysFromCivil y mo da \<or> daysFromCivil y mo da + duration s - 1 < localDay n)
      \<longrightarrow> candidateInstants e t s = Skipped)"
proof (intro conjI impI)
  assume "duration s \<le> 0"
  then have "\<not> isWithinDuration e s (zonedNow e (scheduleTz e s) t)"
    by (rule not_within_nonpositive_duration)
  then show "candidateInstants e t s = Skipped"
    by (simp add: candidateInstants_def)
next
  assume a: "truthy (timezone s) \<and> startDate s = Some txt \<and> parseISODate txt = Some (y, mo, da)
        \<and> zonedNow e (timezone s) t = Some n
        \<and> (localDay n < daysFromCivil y mo da \<or> daysFromCivil y mo da + duration s - 1 < localDay n)"
  then have tz: "scheduleTz e s = timezone s" by (simp add: scheduleTz_own)
  obtain z where z: "normalizeZone e (timezone s) = Some z" "zone n = z"
    using a zonedNow_SomeD [of e "timezone s" t n] by (auto simp: zone_startOf_minute)
  let ?st = "\<lparr>ts = daysFromCivil y mo da * 86400000 - offset z * 60000, zone = z\<rparr>"
  have st: "fromISO e (startDate s) (timezone s) = Some ?st"
    using a z by (simp add: fromISO_date)
  have l: "localTS n = ts n + offset z * 60000" using z by (simp add: localTS_def)
  have w: "isWithinDuration e s (Some n)
          = (daysFromCivil y mo da * 86400000 \<le> localTS n
             \<and> localTS n \<le> (daysFromCivil y mo da + duration s) * 86400000 - 1)"
    unfolding isWithinDuration_iff [OF st] l by (simp add: algebra_simps)
  have b: "localDay n * 86400000 \<le> localTS n" "localTS n < localDay n * 86400000 + 86400000"
    using localDay_bounds [of n] by simp_all
  have "\<not> isWithinDuration e s (Some n)"
  proof (cases "localDay n < daysFromCivil y mo da")
    case True
    then have "localDay n * 86400000 + 86400000 \<le> daysFromCivil y mo da * 86400000" by simp
    then show ?thesis unfolding w using b by linarith
  next
    case False
    then have "daysFromCivil y mo da + duration s - 1 < localDay n" using a by blast
    then have "(daysFromCivil y mo da + duration s) * 86400000 \<le> localDay n * 86400000" by simp
    then show ?thesis unfolding w using b by linarith
  qed
  then show "candidateInstants e t s = Skipped"
    using a by (simp add: candidateInstants_def tz)
qed

theorem no_candidates_outside_window_witness:
  "duration sched_inactive \<le> 0
   \<and> candidateInstants env_utc 1704079800000 sched_inactive = Skipped
   \<and> truthy (timezone sched_base) \<and> duration sched_base = 7
   \<and> startDate sched_base = Some ''2024-01-01''
   \<and> parseISODate ''2024-01-01'' = Some (2024, 1, 1)
   \<and> zonedNow env_utc (timezone sched_base) 1704684600000 = Some (at_0900_IST 7)
   \<and> toISODate (at_0900_IST 7) = ''2024-01-08''
   \<and> daysFromCivil 2024 1 1 + duration sched_base - 1 < localDay (at_0900_IST 7)
   \<and> candidateInstants env_utc 1704684600000 sched_base = Skipped"
proof -
  have d0: "duration sched_inactive \<le> 0"
    by (simp add: sched_inactive_def sched_base_def)
  have tz: "truthy (timezone sched_base)" by (simp add: sched_base_def truthy_def)
  have du: "duration sched_base = 7" by (simp add: sched_base_def)
  have sd: "startDate sched_base = Some ''2024-01-01''" by (simp add: sched_base_def)
  have pd: "parseISODate ''2024-01-01'' = Some (2024, 1, 1)" by code_simp
  have now: "zonedNow env_utc (timezone sched_base) 1704684600000 = Some (at_0900_IST 7)"
    by code_simp
  have iso: "toISODate (at_0900_IST 7) = ''2024-01-08''" by code_simp
  have out: "daysFromCivil 2024 1 1 + duration sched_base - 1 < localDay (at_0900_IST 7)"
    by code_simp
  have a: "candidateInstants env_utc 1704079800000 sched_inactive = Skipped"
    using no_candidates_outside_window [THEN conjunct1, THEN mp, OF d0] .
  have b: "candidateInstants env_utc 1704684600000 sched_base = Skipped"
    using no_candidates_outside_window [THEN conjunct2, THEN mp, of sched_base
        "''2024-01-01''" 2024 1 1 env_utc 1704684600000 "at_0900_IST 7"]
      tz sd pd now out by blast
  show ?thesis using d0 a tz du sd pd now iso out b by simp
qed

text \<open>
  C4 as stated fails: a candidate after the end of the window is produced. The schedule
  is active on 2024-01-01 only (its window ends at 23:59:59 that day); at 10:00 its
  second candidate is 2024-01-02T10:00, and a send is started for it.
\<close>

theorem candidate_after_window_counterexample:
  "duration sched_oneday = 1 \<and> startDate sched_oneday = Some ''2024-01-01''
   \<and> parseISODate ''2024-01-01'' = Some (2024, 1, 1)
   \<and> candidateInstants env_utc 1704103200000 sched_oneday =
       Candidates \<lparr>ts = 1704103200000, zone = utcInstance\<rparr>
         [\<lparr>ts = 1704146400000, zone = utcInstance\<rparr>, \<lparr>ts = 1704189600000, zone = utcInstance\<rparr>]
   \<and> toISO \<lparr>ts = 1704189600000, zone = utcInstance\<rparr> = ''2024-01-02T10:00:00.000Z''
   \<and> (daysFromCivil 2024 1 1 + duration sched_oneday - 1) * 86400000 + 86399999
       < localTS \<lparr>ts = 1704189600000, zone = utcInstance\<rparr>
   \<and> checkSchedule env_utc Map.empty 1704103200000 sched_oneday =
       Inr [\<lparr>req_schedule = sched_oneday, minuteKey = ''2024-01-01T10:00:00.000Z'',
             req_mail = mkMailOptions env_utc sched_oneday\<rparr>]"
  by code_simp










lemma scheduleTz_default:
  "\<not> truthy (timezone s) \<Longrightarrow> scheduleTz e s = or_else (SERVER_TIMEZONE e) (Some ''UTC'')"
  by (simp add: scheduleTz_def or_else_def)

lemma isWithinDuration_None: "\<not> isWithinDuration e s None"
  by (simp add: isWithinDuration_def Let_def split: option.splits)

text \<open>
  For the record: a schedule whose timezone is the empty text is skipped at every tick,
  its start date being read in that zone, which is invalid.
\<close>

lemma empty_timezone_is_skipped:
  assumes "timezone s = Some []"
  shows "candidateInstants e t s = Skipped"
proof -
  have "fromISO e (startDate s) (Some []) = None"
    by (simp add: fromISO_def setZone_def normalizeZone_empty split: option.splits)
  then have "\<not> isWithinDuration e s (zonedNow e (scheduleTz e s) t)"
    by (simp add: isWithinDuration_def assms)
  then show ?thesis by (simp add: candidateInstants_def)
qed

text \<open>
  C6 (as amended). No error is raised for a zone identifier that is not recognised, and
  there is no fallback for it: the current time in that zone is an invalid
  \<open>DateTime\<close>, the window check fails, and the schedule is skipped for the tick
  without a send; the tick goes on with the other schedules. The fallback to the
  configured default zone (\<open>SERVER_TIMEZONE\<close>, else UTC) is taken for a schedule that
  has no timezone property: its current time is taken in the default zone.
\<close>

theorem unknown_zone_is_skipped:
  "(normalizeZone e (scheduleTz e s) = None \<longrightarrow>
      candidateInstants e t s = Skipped \<and> checkSchedule e (lastSent st) t s = Inr []
      \<and> checkDueSchedules e t (st\<lparr>schedules := s # ss\<rparr>)
          = checkDueSchedules e t (st\<lparr>schedules := ss\<rparr>))
   \<and> (timezone s = None \<and> candidateInstants e t s = Candidates n cs \<longrightarrow>
        zonedNow e (or_else (SERVER_TIMEZONE e) (Some ''UTC'')) t = Some n
        \<and> Some (zone n) = normalizeZone e (or_else (SERVER_TIMEZONE e) (Some ''UTC'')))"
proof (intro conjI impI)
  assume z: "normalizeZone e (scheduleTz e s) = None"
  then have "zonedNow e (scheduleTz e s) t = None"
    by (simp add: zonedNow_def setZone_def)
  then show c: "candidateInstants e t s = Skipped"
    by (simp add: candidateInstants_def isWithinDuration_None)
  then show k: "checkSchedule e (lastSent st) t s = Inr []"
    by (simp add: checkSchedule_def)
  then show "checkDueSchedules e t (st\<lparr>schedules := s # ss\<rparr>)
          = checkDueSchedules e t (st\<lparr>schedules := ss\<rparr>)"
    by (simp add: checkDueSchedules_def)
next
  assume a: "timezone s = None \<and> candidateInstants e t s = Candidates n cs"
  then have tz: "scheduleTz e s = or_else (SERVER_TIMEZONE e) (Some ''UTC'')"
    by (simp add: scheduleTz_default truthy_def)
  have "zonedNow e (scheduleTz e s) t = Some n"
    using a candidateInstants_CandidatesD by blast
  then show n: "zonedNow e (or_else (SERVER_TIMEZONE e) (Some ''UTC'')) t = Some n"
    unfolding tz .
  obtain z where "normalizeZone e (or_else (SERVER_TIMEZONE e) (Some ''UTC'')) = Some z" "zone n = z"
    using zonedNow_SomeD [OF n] by (fastforce simp: zone_startOf_minute)
  then show "Some (zone n) = normalizeZone e (or_else (SERVER_TIMEZONE e) (Some ''UTC''))"
    by simp
qed

theorem unknown_zone_is_skipped_witness:
  "normalizeZone env_utc (scheduleTz env_utc sched_mars) = None
   \<and> candidateInstants env_utc 1704099600000 sched_mars = Skipped
   \<and> checkSchedule env_utc (lastSent (state_of [])) 1704099600000 sched_mars = Inr []
   \<and> checkDueSchedules env_utc 1704099600000 ((state_of [])\<lparr>schedules := [sched_mars, sched_nozone]\<rparr>)
       = checkDueSchedules env_utc 1704099600000 ((state_of [])\<lparr>schedules := [sched_nozone]\<rparr>)
   \<and> checkDueSchedules env_utc 1704099600000 ((state_of [])\<lparr>schedules := [sched_nozone]\<rparr>)
       = ([\<lparr>req_schedule = sched_nozone, minuteKey = ''2024-01-01T09:00:00.000Z'',
            req_mail = mkMailOptions env_utc sched_nozone\<rparr>], None)
   \<and> timezone sched_nozone = None
   \<and> candidateInstants env_ist 1704079800000 sched_nozone
       = Candidates (at_0900_IST 0) [at_0900_IST 0]
   \<and> or_else (SERVER_TIMEZONE env_ist) (Some ''UTC'') = Some ''UTC+5:30''
   \<and> zonedNow env_ist (Some ''UTC+5:30'') 1704079800000 = Some (at_0900_IST 0)
   \<and> Some (zone (at_0900_IST 0)) = normalizeZone env_ist (Some ''UTC+5:30'')"
proof -
  have z: "normalizeZone env_utc (scheduleTz env_utc sched_mars) = None" by code_simp
  have r: "checkDueSchedules env_utc 1704099600000 ((state_of [])\<lparr>schedules := [sched_nozone]\<rparr>)
       = ([\<lparr>req_schedule = sched_nozone, minuteKey = ''2024-01-01T09:00:00.000Z'',
            req_mail = mkMailOptions env_utc sched_nozone\<rparr>], None)"
    by code_simp
  have t: "timezone sched_nozone = None" by (simp add: sched_nozone_def)
  have c: "candidateInstants env_ist 1704079800000 sched_nozone
       = Candidates (at_0900_IST 0) [at_0900_IST 0]"
    by code_simp
  have d: "or_else (SERVER_TIMEZONE env_ist) (Some ''UTC'') = Some ''UTC+5:30''" by code_simp
  note a = unknown_zone_is_skipped [where e = env_utc and s = sched_mars
      and t = 1704099600000 and st = "state_of []" and ss = "[sched_nozone]",
      THEN conjunct1, THEN mp, OF z]
  have b: "zonedNow env_ist (or_else (SERVER_TIMEZONE env_ist) (Some ''UTC'')) 1704079800000
             = Some (at_0900_IST 0)
        \<and> Some (zone (at_0900_IST 0))
             = normalizeZone env_ist (or_else (SERVER_TIMEZONE env_ist) (Some ''UTC''))"
    by (rule unknown_zone_is_skipped [where s = sched_nozone
        and e = env_ist and t = 1704079800000 and n = "at_0900_IST 0"
        and cs = "[at_0900_IST 0]", THEN conjunct2, THEN mp]) (intro conjI t c)
  show ?thesis using z r t c d a b [unfolded d] by simp
qed

text \<open>
  C6 as stated fails: with the unknown zone \<open>Mars/Phobos\<close> the schedule is skipped at
  09:00 UTC, where the same schedule evaluated in the default zone (UTC) fires.
\<close>

theorem unknown_zone_no_fallback_counterexample:
  "normalizeZone env_utc (Some ''Mars/Phobos'') = None
   \<and> timezone sched_mars = Some ''Mars/Phobos''
   \<and> checkSchedule env_utc Map.empty 1704099600000 sched_mars = Inr []
   \<and> sched_nozone = sched_mars\<lparr>timezone := None\<rparr>
   \<and> checkSchedule env_utc Map.empty 1704099600000 sched_nozone =
       Inr [\<lparr>req_schedule = sched_nozone, minuteKey = ''2024-01-01T09:00:00.000Z'',
             req_mail = mkMailOptions env_utc sched_nozone\<rparr>]"
  by code_simp

lemma timeParts_default:
  assumes "\<not> truthy (time s)"
  shows "timeParts s = (Some 0, Some 0)"
proof -
  have d: "(let parts = split CHR '':'' ''00:00''
            in (parseInt (at_index parts 0), parseInt (at_index parts 1))) = (Some 0, Some 0)"
    by code_simp
  have "or_else (time s) (Some ''00:00'') = Some ''00:00''"
    using assms by (simp add: or_else_def)
  then show ?thesis using d by (simp add: timeParts_def)
qed

text \<open>
  A time written with two digits for the hour and two for the minute reads as these
  numbers.
\<close>

lemma of_char_digit: "d < 10 \<Longrightarrow> (of_char (char_of (48 + d :: nat)) :: nat) = 48 + d"
  by (simp add: of_char_of)

lemma digit_char:
  assumes "d < 10"
  shows "isDigit (char_of (48 + d :: nat))" and "\<not> isWhiteSpace (char_of (48 + d :: nat))"
    and "digitVal (char_of (48 + d :: nat)) = int d"
    and "char_of (48 + d :: nat) \<noteq> CHR '':''" and "char_of (48 + d :: nat) \<noteq> CHR ''-''"
    and "char_of (48 + d :: nat) \<noteq> CHR ''+''"
proof -
  note o = of_char_digit [OF assms]
  show "isDigit (char_of (48 + d :: nat))" using assms by (simp add: isDigit_def o)
  show "\<not> isWhiteSpace (char_of (48 + d :: nat))" using assms by (simp add: isWhiteSpace_def o)
  show "digitVal (char_of (48 + d :: nat)) = int d" using assms by (simp add: digitVal_def)
  have "(of_char (char_of (48 + d :: nat)) :: nat) \<noteq> of_char CHR '':''" using assms by (simp add: o)
  then show "char_of (48 + d :: nat) \<noteq> CHR '':''" by metis
  have "(of_char (char_of (48 + d :: nat)) :: nat) \<noteq> of_char CHR ''-''" using assms by (simp add: o)
  then show "char_of (48 + d :: nat) \<noteq> CHR ''-''" by metis
  have "(of_char (char_of (48 + d :: nat)) :: nat) \<noteq> of_char CHR ''+''" using assms by (simp add: o)
  then show "char_of (48 + d :: nat) \<noteq> CHR ''+''" by metis
qed

lemma parseInt_two_digits:
  assumes "a < 10" "b < 10"
  shows "parseInt (Some [char_of (48 + a :: nat), char_of (48 + b :: nat)]) = Some (int (10 * a + b))"
  using digit_char [OF assms(1)] digit_char [OF assms(2)]
  by (simp add: parseInt_def digitsVal_def Let_def)

lemma parseInt_padStart:
  assumes "0 \<le> i" "i < 100"
  shows "parseInt (Some (padStart i 2)) = Some i"
proof -
  have d: "nat i div 10 < 10" "nat i mod 10 < 10" using assms by auto
  have "int (10 * (nat i div 10) + nat i mod 10) = i" using assms by simp
  then show ?thesis
    using parseInt_two_digits [OF d] by (simp add: padStart_two [OF assms])
qed

lemma split_padStart:
  assumes "0 \<le> i" "i < 100" "0 \<le> j" "j < 100"
  shows "split CHR '':'' (padStart i 2 @ '':'' @ padStart j 2) = [padStart i 2, padStart j 2]"
proof -
  have d: "nat i div 10 < 10" "nat i mod 10 < 10" "nat j div 10 < 10" "nat j mod 10 < 10"
    using assms by auto
  show ?thesis
    using digit_char(4) [OF d(1)] digit_char(4) [OF d(2)] digit_char(4) [OF d(3)]
      digit_char(4) [OF d(4)]
    by (simp add: padStart_two assms)
qed

lemma timeParts_HHMM:
  assumes "0 \<le> hh" "hh < 100" "0 \<le> mm" "mm < 100"
    and "time s = Some (padStart hh 2 @ '':'' @ padStart mm 2)"
  shows "timeParts s = (Some hh, Some mm)"
proof -
  have l: "padStart hh 2 \<noteq> []" using assms by (simp add: padStart_two)
  have t: "(case or_else (time s) (Some ''00:00'') of None \<Rightarrow> [] | Some x \<Rightarrow> x)
           = padStart hh 2 @ '':'' @ padStart mm 2"
    using assms(5) l by (simp add: or_else_def truthy_def)
  show ?thesis
    unfolding timeParts_def t split_padStart [OF assms(1-4)]
    by (simp add: at_index_def parseInt_padStart assms)
qed

text \<open>
  A schedule with a zone of its own: the tick's current time is the minute of the clock in
  that zone, and the window check holds exactly on the calendar days from the start date to
  the start date + duration - 1 in that zone.
\<close>

lemma own_zone_now:
  assumes "timezone s = Some tzname" "tzname \<noteq> []" "normalizeZone e (Some tzname) = Some z"
  shows "scheduleTz e s = Some tzname"
    and "zonedNow e (scheduleTz e s) t = Some (startOf_minute \<lparr>ts = t, zone = z\<rparr>)"
proof -
  have "truthy (timezone s)" using assms by (simp add: truthy_def)
  then show a: "scheduleTz e s = Some tzname" using assms(1) by (simp add: scheduleTz_own)
  show "zonedNow e (scheduleTz e s) t = Some (startOf_minute \<lparr>ts = t, zone = z\<rparr>)"
    unfolding a by (simp add: zonedNow_def setZone_def DateTime_now_def assms(3))
qed

lemma own_zone_window:
  assumes tz: "timezone s = Some tzname" "tzname \<noteq> []" "normalizeZone e (Some tzname) = Some z"
    and sd: "startDate s = Some txt" "parseISODate txt = Some (y, mo, da)"
    and zn: "zone n = z"
  shows "isWithinDuration e s (Some n)
         = (daysFromCivil y mo da \<le> localDay n \<and> localDay n \<le> daysFromCivil y mo da + duration s - 1)"
proof -
  let ?st = "\<lparr>ts = daysFromCivil y mo da * 86400000 - offset z * 60000, zone = z\<rparr>"
  have tr: "truthy (timezone s)" using tz by (simp add: truthy_def)
  have st: "fromISO e (startDate s) (timezone s) = Some ?st"
    using tr tz sd by (simp add: fromISO_date)
  have l: "localTS n = ts n + offset z * 60000" using zn by (simp add: localTS_def)
  have w: "isWithinDuration e s (Some n)
          = (daysFromCivil y mo da * 86400000 \<le> localTS n
             \<and> localTS n \<le> (daysFromCivil y mo da + duration s) * 86400000 - 1)"
    unfolding isWithinDuration_iff [OF st] l by (simp add: algebra_simps)
  have b: "localDay n * 86400000 \<le> localTS n" "localTS n < localDay n * 86400000 + 86400000"
    using localDay_bounds [of n] by simp_all
  have lo: "(daysFromCivil y mo da * 86400000 \<le> localTS n) = (daysFromCivil y mo da \<le> localDay n)"
    using b by linarith
  have "\<And>k. (localTS n \<le> k * 86400000 - 1) = (localDay n \<le> k - 1)"
    using b by linarith
  then have hi: "(localTS n \<le> (daysFromCivil y mo da + duration s) * 86400000 - 1)
            = (localDay n \<le> daysFromCivil y mo da + duration s - 1)" .
  show ?thesis unfolding w lo hi ..
qed

lemma set_hour_minute_explicit:
  "set_hour_minute hh mm n
   = \<lparr>ts = localDay n * 86400000 + hh * 3600000 + mm * 60000 - offset (zone n) * 60000, zone = zone n\<rparr>"
proof -
  have "localTS n - localTS n mod 86400000 = localDay n * 86400000"
    by (simp add: localDay_def minus_mod_eq_div_mult)
  then have "ts n - localTS n mod 86400000 = localDay n * 86400000 - offset (zone n) * 60000"
    by (simp add: localTS_def)
  then show ?thesis by (simp add: set_hour_minute_def)
qed

lemma parsed_time_never_raises:
  assumes "timeParts s = (Some hh, Some mm)"
  shows "\<exists>rs. checkSchedule e ls t s = Inr rs"
proof (cases "candidateInstants e t s")
  case Skipped
  then show ?thesis by (simp add: checkSchedule_def)
next
  case (Raised x)
  then show ?thesis
    using assms by (simp add: candidateInstants_def Let_def split: option.splits if_splits)
next
  case (Candidates n cs)
  then show ?thesis by (simp add: checkSchedule_def)
qed

lemma active_own_zone_candidates:
  assumes tz: "timezone s = Some tzname" "tzname \<noteq> []" "normalizeZone e (Some tzname) = Some z"
    and sd: "startDate s = Some txt" "parseISODate txt = Some (y, mo, da)"
    and n: "n = startOf_minute \<lparr>ts = t, zone = z\<rparr>"
    and active: "daysFromCivil y mo da \<le> localDay n" "localDay n \<le> daysFromCivil y mo da + duration s - 1"
    and tp: "timeParts s = (Some hh, Some mm)"
    and base: "base = \<lparr>ts = localDay n * 86400000 + hh * 3600000 + mm * 60000 - offset z * 60000, zone = z\<rparr>"
  shows "candidateInstants e t s = Candidates n (candidates e s (Some tzname) n base)"
    and "base = set_hour_minute hh mm n"
proof -
  have zn: "zone n = z" unfolding n by (simp add: zone_startOf_minute)
  note now = own_zone_now(1) [OF tz] own_zone_now(2) [OF tz, where t = t]
  have w: "isWithinDuration e s (Some n)"
    using own_zone_window [OF tz sd zn] active by simp
  show b: "base = set_hour_minute hh mm n"
    unfolding base set_hour_minute_explicit zn ..
  show "candidateInstants e t s = Candidates n (candidates e s (Some tzname) n base)"
    unfolding b using w tp now n by (simp add: candidateInstants_def)
qed

text \<open>
  The candidates of a schedule (of at most 1000000 days) with a fixed-offset zone of its
  own whose time is written \<open>HH:MM\<close>, at a tick where it is active (local time from
  1970 on and at most 8e15 milliseconds after the epoch): they are built from \<open>base\<close>, the
  instant of today's date in that zone at \<open>hh:mm:00.000\<close>, namely \<open>[base]\<close> for
  onceDaily; \<open>base\<close> and \<open>base + 12h\<close> for twiceDaily; \<open>base\<close>,
  \<open>base + 8h\<close> and \<open>base + 16h\<close> for every8h; for everyOtherDay \<open>[base]\<close>
  when the number of calendar days since the start date is at least 0 and even, else
  nothing; for weekly the same with a day count divisible by 7; and \<open>[base]\<close> for any
  other frequency. The every-other-day schedule from 2024-01-01 has a candidate on
  01-01, 01-03 and 01-05 and none on 01-02 and 01-04.
\<close>

lemma candidates_at_schedule_time:
  assumes tz: "timezone s = Some tzname" "tzname \<noteq> []" "normalizeZone e (Some tzname) = Some z"
    and fixed: "hasOwnZone s" "isUniversal z"
    and bounded: "duration s \<le> 1000000" "0 \<le> localTS n" "localTS n \<le> 8000000000000000"
    and tm: "time s = Some (padStart hh 2 @ '':'' @ padStart mm 2)"
    and rng: "0 \<le> hh" "hh < 24" "0 \<le> mm" "mm < 60"
    and sd: "startDate s = Some txt" "parseISODate txt = Some (y, mo, da)"
    and n: "n = startOf_minute \<lparr>ts = t, zone = z\<rparr>"
    and active: "daysFromCivil y mo da \<le> localDay n"
      "localDay n \<le> daysFromCivil y mo da + duration s - 1"
    and base: "base = \<lparr>ts = localDay n * 86400000 + hh * 3600000 + mm * 60000 - offset z * 60000,
                       zone = z\<rparr>"
    and dayCount: "dayCount = localDay n - daysFromCivil y mo da"
  shows "candidateInstants e t s =
           Candidates n
             (if frequency s = ''onceDaily'' then [base]
              else if frequency s = ''twiceDaily''
                then [base, base\<lparr>ts := ts base + 12 * 3600000\<rparr>]
              else if frequency s = ''every8h''
                then [base, base\<lparr>ts := ts base + 8 * 3600000\<rparr>,
                      base\<lparr>ts := ts base + 16 * 3600000\<rparr>]
              else if frequency s = ''everyOtherDay''
                then (if 0 \<le> dayCount \<and> even dayCount then [base] else [])
              else if frequency s = ''weekly''
                then (if 0 \<le> dayCount \<and> 7 dvd dayCount then [base] else [])
              else [base])"
    and "localDay base = localDay n \<and> hour base = hh \<and> minute base = mm
         \<and> second base = 0 \<and> millisecond base = 0"
proof -
  have tp: "timeParts s = (Some hh, Some mm)"
    using rng tm by (intro timeParts_HHMM) simp_all
  note ev = active_own_zone_candidates [OF tz sd n active tp base]
  have zn: "zone n = z" unfolding n by (simp add: zone_startOf_minute)
  have tr: "truthy (Some tzname)" using tz(2) by (simp add: truthy_def)
  have dd: "daysDiff e s (Some tzname) n = Some dayCount"
    unfolding dayCount using daysDiff_calendar [OF sd(2) sd(1) tr tz(3) zn] .
  show "localDay base = localDay n \<and> hour base = hh \<and> minute base = mm
         \<and> second base = 0 \<and> millisecond base = 0"
    unfolding ev(2) using rng by (rule base_today)
  have e2: "(dayCount mod 2 = 0) = even dayCount" by presburger
  have e7: "(dayCount mod 7 = 0) = (7 dvd dayCount)" by presburger
  have c: "candidates e s (Some tzname) n base =
             (if frequency s = ''onceDaily'' then [base]
              else if frequency s = ''twiceDaily''
                then [base, base\<lparr>ts := ts base + 12 * 3600000\<rparr>]
              else if frequency s = ''every8h''
                then [base, base\<lparr>ts := ts base + 8 * 3600000\<rparr>,
                      base\<lparr>ts := ts base + 16 * 3600000\<rparr>]
              else if frequency s = ''everyOtherDay''
                then (if 0 \<le> dayCount \<and> even dayCount then [base] else [])
              else if frequency s = ''weekly''
                then (if 0 \<le> dayCount \<and> 7 dvd dayCount then [base] else [])
              else [base])"
    unfolding candidates_def dd plus_hours_def option.case e2 e7 by simp
  show "candidateInstants e t s =
           Candidates n
             (if frequency s = ''onceDaily'' then [base]
              else if frequency s = ''twiceDaily''
                then [base, base\<lparr>ts := ts base + 12 * 3600000\<rparr>]
              else if frequency s = ''every8h''
                then [base, base\<lparr>ts := ts base + 8 * 3600000\<rparr>,
                      base\<lparr>ts := ts base + 16 * 3600000\<rparr>]
              else if frequency s = ''everyOtherDay''
                then (if 0 \<le> dayCount \<and> even dayCount then [base] else [])
              else if frequency s = ''weekly''
                then (if 0 \<le> dayCount \<and> 7 dvd dayCount then [base] else [])
              else [base])"
    unfolding ev(1) c ..
qed

lemma every_other_day_candidates:
  "candidateInstants env_utc 1704079800000 sched_eod = Candidates (at_0900_IST 0) [at_0900_IST 0]
   \<and> candidateInstants env_utc 1704166200000 sched_eod = Candidates (at_0900_IST 1) []
   \<and> candidateInstants env_utc 1704252600000 sched_eod = Candidates (at_0900_IST 2) [at_0900_IST 2]
   \<and> candidateInstants env_utc 1704339000000 sched_eod = Candidates (at_0900_IST 3) []
   \<and> candidateInstants env_utc 1704425400000 sched_eod = Candidates (at_0900_IST 4) [at_0900_IST 4]
   \<and> toISO (at_0900_IST 0) = ''2024-01-01T09:00:00.000+05:30''
   \<and> toISO (at_0900_IST 2) = ''2024-01-03T09:00:00.000+05:30''"
  by code_simp

text \<open>
  C2, which holds of the schedules with a zone of their own as shown above, is missed by
  the code for a schedule without a timezone property. The zone of such a schedule is the
  default zone (\<open>tz\<close>, line 95), where \<open>now\<close>, the candidates and the day count
  are computed; but \<open>isWithinDuration\<close> reads the start date in
  \<open>schedule.timezone\<close> (line 85), which is undefined, so in the zone of the operating
  system. With \<open>SERVER_TIMEZONE=UTC+5:30\<close> on a machine in UTC, the once-daily 02:00
  schedule that starts on 2024-01-01 is active at 2024-01-01T02:00+05:30, the minute of
  its first dose; the window check places the start of the window at 2024-01-01T00:00Z,
  three and a half hours later, so the schedule is skipped: no candidate is produced and
  nothing is sent. The same schedule with the zone written into it has its candidate at
  02:00 and the send is started.
\<close>

theorem active_schedule_without_timezone_is_skipped:
  "timezone sched_early = None \<and> time sched_early = Some ''02:00''
   \<and> frequency sched_early = ''onceDaily''
   \<and> startDate sched_early = Some ''2024-01-01'' \<and> duration sched_early = 7
   \<and> SERVER_TIMEZONE env_ist = Some ''UTC+5:30''
   \<and> systemZone env_ist = \<lparr>offset = 0, isUniversal = False\<rparr>
   \<and> scheduleTz env_ist sched_early = Some ''UTC+5:30''
   \<and> zonedNow env_ist (scheduleTz env_ist sched_early) 1704054600000
       = Some \<lparr>ts = 1704054600000, zone = \<lparr>offset = 330, isUniversal = True\<rparr>\<rparr>
   \<and> toISO \<lparr>ts = 1704054600000, zone = \<lparr>offset = 330, isUniversal = True\<rparr>\<rparr>
       = ''2024-01-01T02:00:00.000+05:30''
   \<and> fromISO env_ist (startDate sched_early) (timezone sched_early)
       = Some \<lparr>ts = 1704067200000, zone = \<lparr>offset = 0, isUniversal = False\<rparr>\<rparr>
   \<and> fromISO env_ist (startDate sched_early) (scheduleTz env_ist sched_early)
       = Some \<lparr>ts = 1704047400000, zone = \<lparr>offset = 330, isUniversal = True\<rparr>\<rparr>
   \<and> candidateInstants env_ist 1704054600000 sched_early = Skipped
   \<and> checkSchedule env_ist Map.empty 1704054600000 sched_early = Inr []
   \<and> candidateInstants env_ist 1704054600000 (sched_early\<lparr>timezone := Some ''UTC+5:30''\<rparr>)
       = Candidates \<lparr>ts = 1704054600000, zone = \<lparr>offset = 330, isUniversal = True\<rparr>\<rparr>
           [\<lparr>ts = 1704054600000, zone = \<lparr>offset = 330, isUniversal = True\<rparr>\<rparr>]
   \<and> checkSchedule env_ist Map.empty 1704054600000 (sched_early\<lparr>timezone := Some ''UTC+5:30''\<rparr>)
       = Inr [\<lparr>req_schedule = sched_early\<lparr>timezone := Some ''UTC+5:30''\<rparr>,
              minuteKey = ''2024-01-01T02:00:00.000+05:30'',
              req_mail = mkMailOptions env_ist (sched_early\<lparr>timezone := Some ''UTC+5:30''\<rparr>)\<rparr>]"
  by code_simp

text \<open>
  C7 (as amended). The time of a schedule is not validated against hour 0..23 and
  minute 0..59, and there is no \<open>InvalidTimeFormat\<close> error. When the texts before and
  after the first colon read as integers \<open>hh\<close> and \<open>mm\<close> (by \<open>parseInt\<close>),
  the schedule is evaluated without an error, whatever their range. For \<open>hh\<close> and
  \<open>mm\<close> of at most 1000000 in absolute value, a schedule of at most 1000000 days
  whose timezone names a fixed-offset zone of its own, at a tick where it is active (local
  time from 1970 on and at most 8e15 milliseconds after the epoch), gets its candidates
  from the base instant at the start of today plus \<open>hh\<close> hours and \<open>mm\<close> minutes
  (so 25:00 is 01:00 of the next day). A schedule without a time (absent or empty) is
  read as 00:00.
\<close>

theorem time_is_not_range_checked:
  "(timeParts s = (Some hh, Some mm) \<longrightarrow> (\<exists>rs. checkSchedule e ls t s = Inr rs))
   \<and> (timeParts s = (Some hh, Some mm) \<and> \<bar>hh\<bar> \<le> 1000000 \<and> \<bar>mm\<bar> \<le> 1000000
       \<and> timezone s = Some tzname \<and> tzname \<noteq> [] \<and> normalizeZone e (Some tzname) = Some z
       \<and> hasOwnZone s \<and> isUniversal z
       \<and> startDate s = Some start \<and> parseISODate start = Some (y, mo, da) \<and> duration s \<le> 1000000
       \<and> n = startOf_minute \<lparr>ts = t, zone = z\<rparr>
       \<and> 0 \<le> localTS n \<and> localTS n \<le> 8000000000000000
       \<and> daysFromCivil y mo da \<le> localDay n
       \<and> localDay n \<le> daysFromCivil y mo da + duration s - 1
       \<and> base = \<lparr>ts = localDay n * 86400000 + hh * 3600000 + mm * 60000 - offset z * 60000,
                  zone = z\<rparr>
      \<longrightarrow> candidateInstants e t s = Candidates n (candidates e s (Some tzname) n base)
          \<and> localTS base = localDay n * 86400000 + hh * 3600000 + mm * 60000)
   \<and> (\<not> truthy (time s) \<longrightarrow> timeParts s = (Some 0, Some 0))"
proof (intro conjI impI)
  assume "timeParts s = (Some hh, Some mm)"
  then show "\<exists>rs. checkSchedule e ls t s = Inr rs" by (rule parsed_time_never_raises)
next
  assume a: "timeParts s = (Some hh, Some mm) \<and> \<bar>hh\<bar> \<le> 1000000 \<and> \<bar>mm\<bar> \<le> 1000000
       \<and> timezone s = Some tzname \<and> tzname \<noteq> [] \<and> normalizeZone e (Some tzname) = Some z
       \<and> hasOwnZone s \<and> isUniversal z
       \<and> startDate s = Some start \<and> parseISODate start = Some (y, mo, da) \<and> duration s \<le> 1000000
       \<and> n = startOf_minute \<lparr>ts = t, zone = z\<rparr>
       \<and> 0 \<le> localTS n \<and> localTS n \<le> 8000000000000000
       \<and> daysFromCivil y mo da \<le> localDay n
       \<and> localDay n \<le> daysFromCivil y mo da + duration s - 1
       \<and> base = \<lparr>ts = localDay n * 86400000 + hh * 3600000 + mm * 60000 - offset z * 60000,
                  zone = z\<rparr>"
  have tz: "timezone s = Some tzname" "tzname \<noteq> []" "normalizeZone e (Some tzname) = Some z"
    using a by simp_all
  have sd: "startDate s = Some start" "parseISODate start = Some (y, mo, da)" using a by simp_all
  have n: "n = startOf_minute \<lparr>ts = t, zone = z\<rparr>" using a by simp
  have act1: "daysFromCivil y mo da \<le> localDay n" using a by - (elim conjE, assumption)
  have act2: "localDay n \<le> daysFromCivil y mo da + duration s - 1"
    using a by - (elim conjE, assumption)
  note act = act1 act2
  have tp: "timeParts s = (Some hh, Some mm)" using a by simp
  have base: "base = \<lparr>ts = localDay n * 86400000 + hh * 3600000 + mm * 60000 - offset z * 60000,
                  zone = z\<rparr>" using a by simp
  show "candidateInstants e t s = Candidates n (candidates e s (Some tzname) n base)"
    using tz sd n act tp base by (rule active_own_zone_candidates(1))
  show "localTS base = localDay n * 86400000 + hh * 3600000 + mm * 60000"
    unfolding base by (simp add: localTS_def)
next
  assume "\<not> truthy (time s)"
  then show "timeParts s = (Some 0, Some 0)" by (rule timeParts_default)
qed

theorem time_is_not_range_checked_witness:
  "time sched_25 = Some ''25:00'' \<and> timeParts sched_25 = (Some 25, Some 0)
   \<and> (\<exists>rs. checkSchedule env_utc Map.empty 1704070800000 sched_25 = Inr rs)
   \<and> timezone sched_25 = Some ''UTC'' \<and> normalizeZone env_utc (Some ''UTC'') = Some utcInstance
   \<and> hasOwnZone sched_25 \<and> isUniversal utcInstance
   \<and> startDate sched_25 = Some ''2024-01-01'' \<and> parseISODate ''2024-01-01'' = Some (2024, 1, 1)
   \<and> duration sched_25 = 7
   \<and> startOf_minute \<lparr>ts = 1704070800000, zone = utcInstance\<rparr>
       = \<lparr>ts = 1704070800000, zone = utcInstance\<rparr>
   \<and> localTS \<lparr>ts = 1704070800000, zone = utcInstance\<rparr> = 1704070800000
   \<and> localDay \<lparr>ts = 1704070800000, zone = utcInstance\<rparr> = 19723
   \<and> daysFromCivil 2024 1 1 = 19723
   \<and> candidateInstants env_utc 1704070800000 sched_25
       = Candidates \<lparr>ts = 1704070800000, zone = utcInstance\<rparr>
           [\<lparr>ts = 1704157200000, zone = utcInstance\<rparr>]
   \<and> localTS \<lparr>ts = 1704157200000, zone = utcInstance\<rparr>
       = 19723 * 86400000 + 25 * 3600000 + 0 * 60000
   \<and> toISO \<lparr>ts = 1704157200000, zone = utcInstance\<rparr> = ''2024-01-02T01:00:00.000Z''
   \<and> \<not> truthy (time sched_notime) \<and> timeParts sched_notime = (Some 0, Some 0)"
proof -
  let ?n = "\<lparr>ts = 1704070800000, zone = utcInstance\<rparr>"
  let ?b = "\<lparr>ts = 1704157200000, zone = utcInstance\<rparr>"
  have tm: "time sched_25 = Some ''25:00''" by (simp add: sched_25_def)
  have tp: "timeParts sched_25 = (Some 25, Some 0)" by code_simp
  have tz: "timezone sched_25 = Some ''UTC''" by (simp add: sched_25_def)
  have ne: "''UTC'' \<noteq> []" by simp
  have nz: "normalizeZone env_utc (Some ''UTC'') = Some utcInstance" by code_simp
  have un: "isUniversal utcInstance" by (simp add: utcInstance_def)
  have ow: "hasOwnZone sched_25" by code_simp
  have sd: "startDate sched_25 = Some ''2024-01-01''" by (simp add: sched_25_def sched_base_def)
  have pd: "parseISODate ''2024-01-01'' = Some (2024, 1, 1)" by code_simp
  have du: "duration sched_25 = 7" by (simp add: sched_25_def sched_base_def)
  have n: "?n = startOf_minute \<lparr>ts = 1704070800000, zone = utcInstance\<rparr>" by code_simp
  have lt: "localTS ?n = 1704070800000" by code_simp
  have ld: "localDay ?n = 19723" by code_simp
  have dc: "daysFromCivil 2024 1 1 = 19723" by code_simp
  have b: "?b = \<lparr>ts = localDay ?n * 86400000 + 25 * 3600000 + 0 * 60000 - offset utcInstance * 60000,
                  zone = utcInstance\<rparr>"
    by code_simp
  have iso: "toISO ?b = ''2024-01-02T01:00:00.000Z''" by code_simp
  have cs: "candidates env_utc sched_25 (Some ''UTC'') ?n ?b = [?b]"
    by (simp add: candidates_def sched_25_def sched_base_def)
  have nt: "\<not> truthy (time sched_notime)" by (simp add: sched_notime_def truthy_def)
  note th = time_is_not_range_checked [where s = sched_25 and hh = 25 and mm = 0 and e = env_utc
      and t = 1704070800000 and ls = Map.empty and tzname = "''UTC''" and z = utcInstance
      and start = "''2024-01-01''" and y = 2024 and mo = 1 and da = 1 and n = "?n" and base = "?b"]
  have r: "\<exists>rs. checkSchedule env_utc Map.empty 1704070800000 sched_25 = Inr rs"
    using th [THEN conjunct1, THEN mp, OF tp] .
  have h1: "\<bar>25::int\<bar> \<le> 1000000" "\<bar>0::int\<bar> \<le> 1000000" "duration sched_25 \<le> 1000000"
    "0 \<le> localTS ?n" "localTS ?n \<le> 8000000000000000"
    "daysFromCivil 2024 1 1 \<le> localDay ?n"
    "localDay ?n \<le> daysFromCivil 2024 1 1 + duration sched_25 - 1"
    by (simp_all add: du lt ld dc)
  have a: "candidateInstants env_utc 1704070800000 sched_25
             = Candidates ?n (candidates env_utc sched_25 (Some ''UTC'') ?n ?b)
         \<and> localTS ?b = localDay ?n * 86400000 + 25 * 3600000 + 0 * 60000"
    by (rule th [THEN conjunct2, THEN conjunct1, THEN mp])
       (intro conjI tp h1 tz ne nz ow un sd pd n b)
  have c: "timeParts sched_notime = (Some 0, Some 0)"
    using time_is_not_range_checked [where s = sched_notime, THEN conjunct2, THEN conjunct2, THEN mp] nt .
  show ?thesis
    using tm tp r tz nz ow un sd pd du n [symmetric] lt ld dc a [unfolded cs ld] iso nt c by simp
qed

text \<open>
  C7 as stated fails: the time 25:00 is not rejected. The schedule is evaluated, its
  candidate is 2024-01-02T01:00, and at 01:00 on 2024-01-01 a send is started.
\<close>

theorem time_25_gives_an_instant_counterexample:
  "time sched_25 = Some ''25:00'' \<and> timeParts sched_25 = (Some 25, Some 0)
   \<and> candidateInstants env_utc 1704070800000 sched_25
       = Candidates \<lparr>ts = 1704070800000, zone = utcInstance\<rparr>
           [\<lparr>ts = 1704157200000, zone = utcInstance\<rparr>]
   \<and> toISO \<lparr>ts = 1704157200000, zone = utcInstance\<rparr> = ''2024-01-02T01:00:00.000Z''
   \<and> checkSchedule env_utc Map.empty 1704070800000 sched_25 =
       Inr [\<lparr>req_schedule = sched_25, minuteKey = ''2024-01-01T01:00:00.000Z'',
             req_mail = mkMailOptions env_utc sched_25\<rparr>]"
  by code_simp

text \<open>
  For the record: when one of the two parts does not read as a number, luxon's \<open>set\<close>
  raises, and nothing in \<open>checkDueSchedules\<close> catches it: the loop ends at that schedule.
\<close>

lemma unparsable_time_raises:
  assumes "timeParts s = (None, m) \<or> timeParts s = (h, None)"
    and "isWithinDuration e s (zonedNow e (scheduleTz e s) t)"
  shows "checkSchedule e (lastSent st) t s = Inl InvalidArgumentError"
    and "checkDueSchedules e t (st\<lparr>schedules := s # ss\<rparr>) = ([], Some InvalidArgumentError)"
proof -
  obtain n where n: "zonedNow e (scheduleTz e s) t = Some n"
    using assms(2) isWithinDuration_SomeD by blast
  have "candidateInstants e t s = Raised InvalidArgumentError"
    using assms n by (auto simp: candidateInstants_def split: option.splits)
  then show k: "checkSchedule e (lastSent st) t s = Inl InvalidArgumentError"
    by (simp add: checkSchedule_def)
  then show "checkDueSchedules e t (st\<lparr>schedules := s # ss\<rparr>) = ([], Some InvalidArgumentError)"
    by (simp add: checkDueSchedules_def)
qed


section \<open>Facts about ticks and callbacks\<close>

lemma zonedNow_same_minute:
  assumes "t' div 60000 = t div 60000"
  shows "zonedNow e tz t' = zonedNow e tz t"
proof -
  have m: "\<And>z u. startOf_minute \<lparr>ts = u, zone = z\<rparr> = \<lparr>ts = (u div 60000) * 60000, zone = z\<rparr>"
  proof -
    fix z :: zone and u :: int
    have "(u + offset z * 60000) mod 60000 = u mod 60000" by simp
    then show "startOf_minute \<lparr>ts = u, zone = z\<rparr> = \<lparr>ts = (u div 60000) * 60000, zone = z\<rparr>"
      by (simp add: startOf_minute_def localTS_def minus_mod_eq_div_mult)
  qed
  show ?thesis
    by (cases "normalizeZone e tz") (simp_all add: zonedNow_def setZone_def DateTime_now_def m assms)
qed

lemma checkSchedule_same_minute:
  assumes "t' div 60000 = t div 60000"
  shows "checkSchedule e ls t' s = checkSchedule e ls t s"
  by (simp add: checkSchedule_def candidateInstants_def zonedNow_same_minute [OF assms])

lemma checkDueSchedules_same_minute:
  assumes "t' div 60000 = t div 60000" and "lastSent st' = lastSent st" and "schedules st' = schedules st"
  shows "checkDueSchedules e t' st' = checkDueSchedules e t st"
proof -
  have "checkSchedule e (lastSent st) t' = checkSchedule e (lastSent st) t"
    by (intro ext) (rule checkSchedule_same_minute [OF assms(1)])
  then show ?thesis by (simp add: checkDueSchedules_def assms)
qed

lemma run_callbacks_all_failed: "run_callbacks (map (\<lambda>r. (r, True)) cs) st = st"
  by (induction cs) (simp_all add: sendMail_callback_def)

lemma run_callbacks_frame:
  "schedules (run_callbacks cs st) = schedules st \<and> scheduleFile (run_callbacks cs st) = scheduleFile st"
  by (induction cs arbitrary: st) (auto simp: sendMail_callback_def Let_def)

lemma run_callbacks_lastSent:
  assumes "lastSent (run_callbacks cs st) i \<noteq> lastSent st i"
  shows "\<exists>r. (r, False) \<in> set cs \<and> sched_id (req_schedule r) = i
             \<and> lastSent (run_callbacks cs st) i = Some (minuteKey r)"
  using assms
proof (induction cs arbitrary: st)
  case Nil
  then show ?case by simp
next
  case (Cons c cs)
  obtain r err where c: "c = (r, err)" by (cases c)
  show ?case
  proof (cases "lastSent (run_callbacks cs (sendMail_callback r err st)) i
                = lastSent (sendMail_callback r err st) i")
    case True
    then have "lastSent (sendMail_callback r err st) i \<noteq> lastSent st i"
      using Cons.prems c by simp
    then have "\<not> err \<and> sched_id (req_schedule r) = i
               \<and> lastSent (sendMail_callback r err st) i = Some (minuteKey r)"
      by (auto simp: sendMail_callback_def Let_def split: if_splits)
    then show ?thesis using True c by auto
  next
    case False
    then show ?thesis using Cons.IH [of "sendMail_callback r err st"] c by auto
  qed
qed

lemma run_callbacks_dom: "dom (lastSent st) \<subseteq> dom (lastSent (run_callbacks cs st))"
proof (induction cs arbitrary: st)
  case Nil
  then show ?case by simp
next
  case (Cons c cs)
  obtain r err where c: "c = (r, err)" by (cases c)
  have "dom (lastSent st) \<subseteq> dom (lastSent (sendMail_callback r err st))"
    by (auto simp: sendMail_callback_def Let_def)
  then show ?case using Cons.IH [of "sendMail_callback r err st"] c by auto
qed


section \<open>The claims about the dedup store\<close>

text \<open>
  C8. The callback of a send that failed leaves the state as it was: the key is not
  marked sent, in memory or in \<open>lastSent.json\<close>. So after any number of failed sends a
  tick in the same minute starts the same sends again. The key is written by the callback
  of a successful send only: then \<open>lastSent[schedule.id]\<close> is the minute key and the
  file holds the new map.
\<close>

theorem failed_send_is_retried:
  "sendMail_callback r True st = st
   \<and> (t' div 60000 = t div 60000 \<longrightarrow>
        checkDueSchedules e t' (run_callbacks (map (\<lambda>q. (q, True)) cs) st) = checkDueSchedules e t st)
   \<and> lastSent (sendMail_callback r False st) (sched_id (req_schedule r)) = Some (minuteKey r)
   \<and> lastSentFile (sendMail_callback r False st) = Some (lastSent (sendMail_callback r False st))"
proof (intro conjI impI)
  show "sendMail_callback r True st = st" by (simp add: sendMail_callback_def)
next
  assume "t' div 60000 = t div 60000"
  then show "checkDueSchedules e t' (run_callbacks (map (\<lambda>q. (q, True)) cs) st)
             = checkDueSchedules e t st"
    unfolding run_callbacks_all_failed by (rule checkDueSchedules_same_minute) simp_all
next
  show "lastSent (sendMail_callback r False st) (sched_id (req_schedule r)) = Some (minuteKey r)"
    by (simp add: sendMail_callback_def Let_def)
next
  show "lastSentFile (sendMail_callback r False st) = Some (lastSent (sendMail_callback r False st))"
    by (simp add: sendMail_callback_def Let_def)
qed

theorem failed_send_is_retried_witness:
  "1704079830000 div 60000 = (1704079800000::int) div 60000
   \<and> sendMail_callback req_base True (state_of [sched_base]) = state_of [sched_base]
   \<and> checkDueSchedules env_utc 1704079800000 (state_of [sched_base]) = ([req_base], None)
   \<and> checkDueSchedules env_utc 1704079830000
         (run_callbacks (map (\<lambda>q. (q, True)) [req_base]) (state_of [sched_base]))
       = ([req_base], None)
   \<and> lastSent (sendMail_callback req_base False (state_of [sched_base])) ''1704067200000''
       = Some ''2024-01-01T09:00:00.000+05:30''"
proof -
  have m: "1704079830000 div 60000 = (1704079800000::int) div 60000" by simp
  have r: "checkDueSchedules env_utc 1704079800000 (state_of [sched_base]) = ([req_base], None)"
    by code_simp
  have i: "sched_id (req_schedule req_base) = ''1704067200000''"
    and k: "minuteKey req_base = ''2024-01-01T09:00:00.000+05:30''"
    by (simp_all add: req_base_def sched_base_def)
  note th = failed_send_is_retried [where r = req_base and st = "state_of [sched_base]"
      and t' = 1704079830000 and t = 1704079800000 and e = env_utc and cs = "[req_base]"]
  have a: "sendMail_callback req_base True (state_of [sched_base]) = state_of [sched_base]"
    using th by (rule conjunct1)
  have b: "checkDueSchedules env_utc 1704079830000
         (run_callbacks (map (\<lambda>q. (q, True)) [req_base]) (state_of [sched_base]))
       = checkDueSchedules env_utc 1704079800000 (state_of [sched_base])"
    using th m by blast
  have c: "lastSent (sendMail_callback req_base False (state_of [sched_base]))
             (sched_id (req_schedule req_base)) = Some (minuteKey req_base)"
    using th by blast
  show ?thesis using m a b c r unfolding i k by simp
qed

text \<open>
  C10. A tick that runs to its end, with the callbacks of its sends, leaves the schedule
  registry (the list and \<open>schedules.json\<close>) as it was. An entry of the last-sent map
  differs afterwards only if a send of this tick for that schedule id succeeded, and then
  it is that send's minute key; if every send of the tick fails, the whole state is
  unchanged.
\<close>

theorem tick_writes_only_lastSent:
  assumes "completeTick e t fails st = Inr st'"
  shows "schedules st' = schedules st \<and> scheduleFile st' = scheduleFile st
       \<and> (\<forall>i. lastSent st' i \<noteq> lastSent st i \<longrightarrow>
            (\<exists>r. r \<in> set (fst (checkDueSchedules e t st)) \<and> \<not> fails r
                 \<and> sched_id (req_schedule r) = i \<and> lastSent st' i = Some (minuteKey r)))
       \<and> ((\<forall>r. r \<in> set (fst (checkDueSchedules e t st)) \<longrightarrow> fails r) \<longrightarrow> st' = st)"
proof -
  obtain rs where rs: "checkDueSchedules e t st = (rs, None)"
    and st': "st' = run_callbacks (map (\<lambda>r. (r, fails r)) rs) st"
    using assms by (auto simp: completeTick_def split: prod.splits option.splits)
  have a: "schedules st' = schedules st \<and> scheduleFile st' = scheduleFile st"
    unfolding st' by (rule run_callbacks_frame)
  have b: "\<forall>i. lastSent st' i \<noteq> lastSent st i \<longrightarrow>
            (\<exists>r. r \<in> set (fst (checkDueSchedules e t st)) \<and> \<not> fails r
                 \<and> sched_id (req_schedule r) = i \<and> lastSent st' i = Some (minuteKey r))"
  proof (intro allI impI)
    fix i assume "lastSent st' i \<noteq> lastSent st i"
    then obtain r where "(r, False) \<in> set (map (\<lambda>r. (r, fails r)) rs)"
      "sched_id (req_schedule r) = i" "lastSent st' i = Some (minuteKey r)"
      unfolding st' using run_callbacks_lastSent by blast
    then show "\<exists>r. r \<in> set (fst (checkDueSchedules e t st)) \<and> \<not> fails r
                 \<and> sched_id (req_schedule r) = i \<and> lastSent st' i = Some (minuteKey r)"
      using rs by auto
  qed
  have c: "(\<forall>r. r \<in> set (fst (checkDueSchedules e t st)) \<longrightarrow> fails r) \<longrightarrow> st' = st"
  proof
    assume "\<forall>r. r \<in> set (fst (checkDueSchedules e t st)) \<longrightarrow> fails r"
    then have "\<And>r. r \<in> set rs \<Longrightarrow> (r, fails r) = (r, True)"
      using rs by simp
    then have m: "map (\<lambda>r. (r, fails r)) rs = map (\<lambda>r. (r, True)) rs"
      by (rule map_cong [OF refl])
    show "st' = st" unfolding st' m by (rule run_callbacks_all_failed)
  qed
  show ?thesis using a b c by blast
qed

theorem tick_writes_only_lastSent_witness:
  "completeTick env_utc 1704079800000 (\<lambda>r. False) (state_of [sched_base])
     = Inr (sendMail_callback req_base False (state_of [sched_base]))
   \<and> schedules (sendMail_callback req_base False (state_of [sched_base])) = [sched_base]
   \<and> scheduleFile (sendMail_callback req_base False (state_of [sched_base])) = Some [sched_base]
   \<and> lastSent (sendMail_callback req_base False (state_of [sched_base])) ''1704067200000''
       = Some ''2024-01-01T09:00:00.000+05:30''
   \<and> completeTick env_utc 1704079800000 (\<lambda>r. True) (state_of [sched_base])
       = Inr (state_of [sched_base])"
proof -
  have r: "checkDueSchedules env_utc 1704079800000 (state_of [sched_base]) = ([req_base], None)"
    by code_simp
  have c: "completeTick env_utc 1704079800000 (\<lambda>r. False) (state_of [sched_base])
     = Inr (sendMail_callback req_base False (state_of [sched_base]))"
    by (simp add: completeTick_def r)
  have f: "completeTick env_utc 1704079800000 (\<lambda>r. True) (state_of [sched_base])
     = Inr (sendMail_callback req_base True (state_of [sched_base]))"
    by (simp add: completeTick_def r)
  have s: "schedules (state_of [sched_base]) = [sched_base]"
    "scheduleFile (state_of [sched_base]) = Some [sched_base]"
    by (simp_all add: state_of_def)
  have l: "lastSent (sendMail_callback req_base False (state_of [sched_base])) ''1704067200000''
       = Some ''2024-01-01T09:00:00.000+05:30''"
    by (simp add: sendMail_callback_def Let_def req_base_def sched_base_def)
  have u: "sendMail_callback req_base True (state_of [sched_base]) = state_of [sched_base]"
    using tick_writes_only_lastSent [OF f] r by simp
  show ?thesis using tick_writes_only_lastSent [OF c] c f s l u by simp
qed

text \<open>
  C9 (as amended). No operation deletes an entry of the last-sent map. Deleting a schedule
  and adding a schedule leave the map and \<open>lastSent.json\<close> as they are, and the
  callbacks of sends only add or overwrite entries. In particular the entry of a deleted
  schedule stays.
\<close>

theorem dedup_record_is_never_deleted:
  "lastSent (deleteSchedule i st) = lastSent st
   \<and> lastSentFile (deleteSchedule i st) = lastSentFile st
   \<and> lastSent (snd (addSchedule e t b st)) = lastSent st
   \<and> lastSentFile (snd (addSchedule e t b st)) = lastSentFile st
   \<and> dom (lastSent st) \<subseteq> dom (lastSent (sendMail_callback r err st))
   \<and> dom (lastSent st) \<subseteq> dom (lastSent (run_callbacks cs st))"
proof -
  have d: "lastSent (deleteSchedule i st) = lastSent st
           \<and> lastSentFile (deleteSchedule i st) = lastSentFile st"
    by (simp add: deleteSchedule_def Let_def)
  have a: "lastSent (snd (addSchedule e t b st)) = lastSent st
           \<and> lastSentFile (snd (addSchedule e t b st)) = lastSentFile st"
    by (simp add: addSchedule_def Let_def)
  have c: "dom (lastSent st) \<subseteq> dom (lastSent (sendMail_callback r err st))"
    using run_callbacks_dom [of st "[(r, err)]"] by simp
  show ?thesis using d a c run_callbacks_dom [of st cs] by blast
qed

theorem dedup_record_is_never_deleted_witness:
  "lastSent state_sent ''1704067200000'' = Some ''2024-01-01T09:00:00.000+05:30''
   \<and> lastSent (deleteSchedule ''1704067200000'' state_sent) ''1704067200000''
       = Some ''2024-01-01T09:00:00.000+05:30''
   \<and> fst (addSchedule env_utc 1704067200001 body_base state_sent) = Success
   \<and> lastSent (snd (addSchedule env_utc 1704067200001 body_base state_sent)) ''1704067200000''
       = Some ''2024-01-01T09:00:00.000+05:30''
   \<and> ''1704067200000'' \<in> dom (lastSent (sendMail_callback req_base True state_sent))"
proof -
  have l: "lastSent state_sent ''1704067200000'' = Some ''2024-01-01T09:00:00.000+05:30''"
    by (simp add: state_sent_def sendMail_callback_def Let_def req_base_def sched_base_def)
  have a: "fst (addSchedule env_utc 1704067200001 body_base state_sent) = Success"
    by (simp add: addSchedule_def body_base_def truthy_def Let_def)
  note th = dedup_record_is_never_deleted [where i = "''1704067200000''" and st = state_sent
      and e = env_utc and t = 1704067200001 and b = body_base and r = req_base and err = True
      and cs = "[]"]
  have d: "lastSent (deleteSchedule ''1704067200000'' state_sent) = lastSent state_sent"
    using th by (rule conjunct1)
  have b: "lastSent (snd (addSchedule env_utc 1704067200001 body_base state_sent))
           = lastSent state_sent"
    using th [THEN conjunct2, THEN conjunct2] by (rule conjunct1)
  have c: "dom (lastSent state_sent) \<subseteq> dom (lastSent (sendMail_callback req_base True state_sent))"
    using th [THEN conjunct2, THEN conjunct2, THEN conjunct2, THEN conjunct2] by (rule conjunct1)
  have "''1704067200000'' \<in> dom (lastSent state_sent)" using l by (rule domI)
  then have m: "''1704067200000'' \<in> dom (lastSent (sendMail_callback req_base True state_sent))"
    using c by (rule rev_subsetD)
  show ?thesis unfolding d b using l a m by (intro conjI)
qed

text \<open>
  C9 as stated fails in its second half: after the base schedule was sent for and then
  deleted, the registry is empty and the last-sent map still holds its entry.
\<close>

theorem dedup_record_survives_delete_counterexample:
  "sched_id sched_base = ''1704067200000''
   \<and> schedules (deleteSchedule ''1704067200000''
         (sendMail_callback req_base False (state_of [sched_base]))) = []
   \<and> lastSent (deleteSchedule ''1704067200000''
         (sendMail_callback req_base False (state_of [sched_base]))) ''1704067200000''
       = Some ''2024-01-01T09:00:00.000+05:30''"
  by (simp add: deleteSchedule_def sendMail_callback_def Let_def state_of_def req_base_def
      sched_base_def)


section \<open>Facts about the sends of one tick\<close>

lemma checkCandidate_cases:
  "checkCandidate e ls s n dt = []
   \<or> (ls (sched_id s) \<noteq> Some (toISO n) \<and> toFormat_HHmm dt = toFormat_HHmm n
      \<and> checkCandidate e ls s n dt
          = [\<lparr>req_schedule = s, minuteKey = toISO n, req_mail = mkMailOptions e s\<rparr>])"
  by (simp add: checkCandidate_def)

lemma checkSchedule_requests:
  assumes "checkSchedule e ls t s = Inr qs" and "q \<in> set qs"
  shows "\<exists>n cs. candidateInstants e t s = Candidates n cs
           \<and> q = \<lparr>req_schedule = s, minuteKey = toISO n, req_mail = mkMailOptions e s\<rparr>
           \<and> ls (sched_id s) \<noteq> Some (toISO n)"
proof (cases "candidateInstants e t s")
  case Skipped
  then show ?thesis using assms by (simp add: checkSchedule_def)
next
  case (Raised x)
  then show ?thesis using assms by (simp add: checkSchedule_def)
next
  case (Candidates n cs)
  then have "q \<in> set (concat (map (checkCandidate e ls s n) cs))"
    using assms by (auto simp: checkSchedule_def)
  then obtain dt where "q \<in> set (checkCandidate e ls s n dt)" by auto
  then show ?thesis using Candidates checkCandidate_cases [of e ls s n dt] by auto
qed

lemma not_two_due:
  assumes "(a - n) mod 86400000 = (0::int)" and "(a + k * 3600000 - n) mod 86400000 = 0"
    and "k = 8 \<or> k = 12 \<or> k = 16"
  shows False
proof -
  have "86400000 dvd (a - n)" using assms(1) by (simp add: mod_eq_0_iff_dvd)
  moreover have "a + k * 3600000 - n = (a - n) + k * 3600000" by simp
  then have "86400000 dvd (a - n) + k * 3600000"
    using assms(2) by (simp only: mod_eq_0_iff_dvd)
  ultimately have "(86400000::int) dvd k * 3600000"
    by (simp only: dvd_add_right_iff)
  then show False using assms(3) by auto
qed

lemma candidates_shapes:
  "candidates e s tz n b = [] \<or> candidates e s tz n b = [b]
   \<or> candidates e s tz n b = [b, plus_hours 12 b]
   \<or> candidates e s tz n b = [b, plus_hours 8 b, plus_hours 16 b]"
  by (simp add: candidates_def split: option.splits)

lemma at_most_one_due:
  assumes "candidateInstants e t s = Candidates n cs"
  shows "length (filter (\<lambda>dt. toFormat_HHmm dt = toFormat_HHmm n) cs) \<le> 1"
proof -
  obtain hh mm where cs: "cs = candidates e s (scheduleTz e s) n (set_hour_minute hh mm n)"
    using candidateInstants_CandidatesD [OF assms] by blast
  define b where "b = set_hour_minute hh mm n"
  define due where "due = (\<lambda>dt. toFormat_HHmm dt = toFormat_HHmm n)"
  have due: "due dt = ((ts dt - ts n) mod 86400000 = 0)" if "dt \<in> set cs" for dt
    unfolding due_def using candidate_due_iff [OF assms that] by (rule conjunct2)
  have p: "\<And>k. ts (plus_hours k b) = ts b + k * 3600000" by (simp add: plus_hours_def)
  have "cs = [] \<or> cs = [b] \<or> cs = [b, plus_hours 12 b]
        \<or> cs = [b, plus_hours 8 b, plus_hours 16 b]"
    unfolding cs b_def by (rule candidates_shapes)
  then consider "cs = []" | "cs = [b]" | "cs = [b, plus_hours 12 b]"
    | "cs = [b, plus_hours 8 b, plus_hours 16 b]"
    by blast
  then have "length (filter due cs) \<le> 1"
  proof cases
    case 1
    then show ?thesis by simp
  next
    case 2
    then show ?thesis by simp
  next
    case 3
    have d: "due b = ((ts b - ts n) mod 86400000 = 0)"
      "due (plus_hours 12 b) = ((ts b + 12 * 3600000 - ts n) mod 86400000 = 0)"
      using due [of b] due [of "plus_hours 12 b"] 3 by (simp_all add: p)
    have "\<not> (due b \<and> due (plus_hours 12 b))"
      unfolding d using not_two_due [of "ts b" "ts n" 12] by auto
    then show ?thesis unfolding 3 by (cases "due b"; cases "due (plus_hours 12 b)"; simp)
  next
    case 4
    have d: "due b = ((ts b - ts n) mod 86400000 = 0)"
      "due (plus_hours 8 b) = ((ts b + 8 * 3600000 - ts n) mod 86400000 = 0)"
      "due (plus_hours 16 b) = ((ts b + 16 * 3600000 - ts n) mod 86400000 = 0)"
      using due [of b] due [of "plus_hours 8 b"] due [of "plus_hours 16 b"] 4
      by (simp_all add: p)
    have x: "\<not> (due b \<and> due (plus_hours 8 b))"
      unfolding d using not_two_due [of "ts b" "ts n" 8] by auto
    have y: "\<not> (due b \<and> due (plus_hours 16 b))"
      unfolding d using not_two_due [of "ts b" "ts n" 16] by auto
    have k8: "(8::int) = 8 \<or> (8::int) = 12 \<or> (8::int) = 16" by simp
    have e16: "ts b + 16 * 3600000 - ts n = (ts b + 8 * 3600000) + 8 * 3600000 - ts n"
      by simp
    have z: "\<not> (due (plus_hours 8 b) \<and> due (plus_hours 16 b))"
      unfolding d e16 using not_two_due [of "ts b + 8 * 3600000" "ts n" 8, OF _ _ k8] by metis
    show ?thesis unfolding 4 using x y z
      by (cases "due b"; cases "due (plus_hours 8 b)"; cases "due (plus_hours 16 b)"; simp)
  qed
  then show ?thesis by (simp add: due_def)
qed

lemma length_checkCandidate:
  "length (checkCandidate e ls s n dt) \<le> (if toFormat_HHmm dt = toFormat_HHmm n then 1 else 0)"
  by (simp add: checkCandidate_def)

lemma length_concat_checkCandidate:
  "length (concat (map (checkCandidate e ls s n) cs))
   \<le> length (filter (\<lambda>dt. toFormat_HHmm dt = toFormat_HHmm n) cs)"
proof (induction cs)
  case Nil
  then show ?case by simp
next
  case (Cons a cs)
  show ?case using Cons.IH length_checkCandidate [of e ls s n a] by auto
qed

lemma checkSchedule_at_most_one:
  assumes "checkSchedule e ls t s = Inr qs"
  shows "length qs \<le> 1"
proof (cases "candidateInstants e t s")
  case Skipped
  then show ?thesis using assms by (simp add: checkSchedule_def)
next
  case (Raised x)
  then show ?thesis using assms by (simp add: checkSchedule_def)
next
  case (Candidates n cs)
  then have "qs = concat (map (checkCandidate e ls s n) cs)"
    using assms by (simp add: checkSchedule_def)
  then show ?thesis
    using length_concat_checkCandidate [of e ls s n cs] at_most_one_due [OF Candidates]
    by simp
qed

lemma forEach_requests:
  assumes "q \<in> set (fst (forEach_schedule f ss))"
  shows "\<exists>s qs. s \<in> set ss \<and> f s = Inr qs \<and> q \<in> set qs"
  using assms
proof (induction ss)
  case Nil
  then show ?case by simp
next
  case (Cons a ss)
  show ?case
  proof (cases "f a")
    case (Inl err)
    then show ?thesis using Cons.prems by simp
  next
    case (Inr qs)
    then have "q \<in> set qs \<or> q \<in> set (fst (forEach_schedule f ss))"
      using Cons.prems by (auto split: prod.splits)
    then show ?thesis using Inr Cons.IH by auto
  qed
qed

lemma tick_request_schedule:
  assumes "q \<in> set (fst (forEach_schedule (checkSchedule e ls t) ss))"
  shows "req_schedule q \<in> set ss
       \<and> (\<exists>n cs. candidateInstants e t (req_schedule q) = Candidates n cs
              \<and> minuteKey q = toISO n \<and> ls (sched_id (req_schedule q)) \<noteq> Some (toISO n))"
proof -
  obtain s qs where s: "s \<in> set ss" "checkSchedule e ls t s = Inr qs" "q \<in> set qs"
    using forEach_requests [OF assms] by blast
  obtain n cs where "candidateInstants e t s = Candidates n cs"
    "q = \<lparr>req_schedule = s, minuteKey = toISO n, req_mail = mkMailOptions e s\<rparr>"
    "ls (sched_id s) \<noteq> Some (toISO n)"
    using checkSchedule_requests [OF s(2) s(3)] by blast
  then show ?thesis using s(1) by auto
qed

lemma tick_at_most_one_per_id:
  assumes "distinct (map sched_id ss)"
  shows "length (filter (\<lambda>q. sched_id (req_schedule q) = i)
                   (fst (forEach_schedule (checkSchedule e ls t) ss))) \<le> 1"
  using assms
proof (induction ss)
  case Nil
  then show ?case by simp
next
  case (Cons a ss)
  let ?P = "\<lambda>q. sched_id (req_schedule q) = i"
  let ?f = "checkSchedule e ls t"
  show ?case
  proof (cases "?f a")
    case (Inl err)
    then show ?thesis by simp
  next
    case (Inr qs)
    have fst: "fst (forEach_schedule ?f (a # ss)) = qs @ fst (forEach_schedule ?f ss)"
      using Inr by (simp split: prod.splits)
    have own: "\<And>q. q \<in> set qs \<Longrightarrow> req_schedule q = a"
      using checkSchedule_requests [OF Inr] by fastforce
    show ?thesis
    proof (cases "sched_id a = i")
      case True
      have "\<And>q. q \<in> set (fst (forEach_schedule ?f ss)) \<Longrightarrow> \<not> ?P q"
      proof
        fix q assume q: "q \<in> set (fst (forEach_schedule ?f ss))" and "?P q"
        then have "req_schedule q \<in> set ss" "sched_id (req_schedule q) = sched_id a"
          using tick_request_schedule [OF q] True by simp_all
        then have "sched_id a \<in> sched_id ` set ss" by (metis imageI)
        then show False using Cons.prems by simp
      qed
      then have "filter ?P (fst (forEach_schedule ?f ss)) = []"
        by (simp add: filter_empty_conv)
      moreover have "length (filter ?P qs) \<le> 1"
        using checkSchedule_at_most_one [OF Inr] length_filter_le [of ?P qs] by linarith
      ultimately show ?thesis unfolding fst by simp
    next
      case False
      then have "filter ?P qs = []" using own by (simp add: filter_empty_conv)
      then show ?thesis unfolding fst using Cons.IH Cons.prems by simp
    qed
  qed
qed

lemma filter_singleton:
  assumes "length (filter P xs) \<le> 1" and "x \<in> set xs" and "P x"
  shows "filter P xs = [x]"
proof -
  have "x \<in> set (filter P xs)" using assms by simp
  then show ?thesis using assms(1)
    by (cases "filter P xs") (auto simp: length_Suc_conv)
qed

lemma run_callbacks_commits:
  assumes "\<And>q err. (q, err) \<in> set cbs \<Longrightarrow> sched_id (req_schedule q) = i \<Longrightarrow> minuteKey q = k"
    and "lastSent st i = Some k \<or> (\<exists>q. (q, False) \<in> set cbs \<and> sched_id (req_schedule q) = i)"
  shows "lastSent (run_callbacks cbs st) i = Some k"
  using assms
proof (induction cbs arbitrary: st)
  case Nil
  then show ?case by simp
next
  case (Cons c cbs)
  obtain q err where c: "c = (q, err)" by (cases c)
  have key: "sched_id (req_schedule q) = i \<Longrightarrow> minuteKey q = k"
    using Cons.prems(1) [of q err] c by simp
  have "lastSent (sendMail_callback q err st) i = Some k
        \<or> (\<exists>q'. (q', False) \<in> set cbs \<and> sched_id (req_schedule q') = i)"
    using Cons.prems(2) c key by (auto simp: sendMail_callback_def Let_def)
  moreover have "\<And>q' err'. (q', err') \<in> set cbs \<Longrightarrow> sched_id (req_schedule q') = i
                   \<Longrightarrow> minuteKey q' = k"
    using Cons.prems(1) by auto
  ultimately have "lastSent (run_callbacks cbs (sendMail_callback q err st)) i = Some k"
    by (rule Cons.IH [rotated])
  then show ?case using c by simp
qed

lemma run_callbacks_persists:
  assumes "lastSentFile st = Some (lastSent st) \<or> (\<exists>q. (q, False) \<in> set cbs)"
  shows "lastSentFile (run_callbacks cbs st) = Some (lastSent (run_callbacks cbs st))"
  using assms
proof (induction cbs arbitrary: st)
  case Nil
  then show ?case by simp
next
  case (Cons c cbs)
  obtain q err where c: "c = (q, err)" by (cases c)
  have "lastSentFile (sendMail_callback q err st) = Some (lastSent (sendMail_callback q err st))
        \<or> (\<exists>q'. (q', False) \<in> set cbs)"
    using Cons.prems c by (auto simp: sendMail_callback_def Let_def)
  then show ?case using Cons.IH [of "sendMail_callback q err st"] c by simp
qed

lemma candidateInstants_same_minute:
  assumes "t' div 60000 = t div 60000"
  shows "candidateInstants e t' s = candidateInstants e t s"
  by (simp add: candidateInstants_def zonedNow_same_minute [OF assms])

lemma distinct_ids_same_schedule:
  assumes "distinct (map sched_id ss)" and "a \<in> set ss" and "b \<in> set ss"
    and "sched_id a = sched_id b"
  shows "a = b"
  using assms by (meson distinct_map inj_onD)


section \<open>The claim about repeated ticks\<close>

text \<open>
  C3 (as amended). Let the schedule ids be distinct and the registry be persisted. If a
  tick starts a send \<open>r\<close> for a schedule, it is the only send of that tick for the
  schedule. If then callbacks of sends of this tick complete, among them the callback of
  \<open>r\<close> without error, a second tick in the same minute starts no send for the schedule;
  and restarting the process at that point reloads the same state, so the tick after the
  restart starts none either.
\<close>

theorem same_minute_tick_sends_once:
  assumes d: "distinct (map sched_id (schedules st))"
    and f: "scheduleFile st = Some (schedules st)"
    and t1: "checkDueSchedules e t st = (rs, None)"
    and r: "r \<in> set rs"
    and cb: "fst ` set cbs \<subseteq> set rs" "(r, False) \<in> set cbs"
    and m: "t' div 60000 = t div 60000"
  shows "filter (\<lambda>q. sched_id (req_schedule q) = sched_id (req_schedule r)) rs = [r]
       \<and> filter (\<lambda>q. sched_id (req_schedule q) = sched_id (req_schedule r))
           (fst (checkDueSchedules e t' (run_callbacks cbs st))) = []
       \<and> startup (run_callbacks cbs st) = run_callbacks cbs st
       \<and> filter (\<lambda>q. sched_id (req_schedule q) = sched_id (req_schedule r))
           (fst (checkDueSchedules e t' (startup (run_callbacks cbs st)))) = []"
proof -
  let ?i = "sched_id (req_schedule r)"
  let ?P = "\<lambda>q. sched_id (req_schedule q) = ?i"
  let ?st = "run_callbacks cbs st"
  have rs: "rs = fst (forEach_schedule (checkSchedule e (lastSent st) t) (schedules st))"
    using t1 by (simp add: checkDueSchedules_def)
  have one: "filter ?P rs = [r]"
    using tick_at_most_one_per_id [OF d, of ?i e "lastSent st" t] r
    unfolding rs [symmetric] by (intro filter_singleton) simp_all
  obtain n cs where s: "req_schedule r \<in> set (schedules st)"
    and c: "candidateInstants e t (req_schedule r) = Candidates n cs"
    and k: "minuteKey r = toISO n"
    using tick_request_schedule [of r e "lastSent st" t "schedules st"] r rs by blast
  have same: "minuteKey q = minuteKey r"
    if "(q, err) \<in> set cbs" "sched_id (req_schedule q) = ?i" for q err
  proof -
    have "q \<in> set rs" using that(1) cb(1) by force
    then have "q \<in> set (filter ?P rs)" using that(2) by simp
    then show ?thesis unfolding one by simp
  qed
  have ls: "lastSent ?st ?i = Some (minuteKey r)"
    using same cb(2) by (intro run_callbacks_commits) blast+
  have sch: "schedules ?st = schedules st" "scheduleFile ?st = scheduleFile st"
    using run_callbacks_frame [of cbs st] by simp_all
  have none: "\<not> ?P q" if q: "q \<in> set (fst (checkDueSchedules e t' ?st))" for q
  proof
    assume p: "?P q"
    have q': "q \<in> set (fst (forEach_schedule (checkSchedule e (lastSent ?st) t') (schedules st)))"
      using q by (simp add: checkDueSchedules_def sch)
    obtain n' cs' where a: "req_schedule q \<in> set (schedules st)"
      and b: "candidateInstants e t' (req_schedule q) = Candidates n' cs'"
      and x: "lastSent ?st (sched_id (req_schedule q)) \<noteq> Some (toISO n')"
      using tick_request_schedule [OF q'] by blast
    have "req_schedule q = req_schedule r"
      using distinct_ids_same_schedule [OF d a s p] .
    then have "n' = n"
      using b c candidateInstants_same_minute [OF m, of e "req_schedule r"] by simp
    then show False using x p ls k by simp
  qed
  then have two: "filter ?P (fst (checkDueSchedules e t' ?st)) = []"
    by (simp add: filter_empty_conv)
  have "lastSentFile ?st = Some (lastSent ?st)"
    using cb(2) by (intro run_callbacks_persists) blast
  then have three: "startup ?st = ?st"
    using f sch by (simp add: startup_def readJSON_def)
  show ?thesis using one two three by simp
qed

theorem same_minute_tick_sends_once_witness:
  "distinct (map sched_id (schedules (state_of [sched_base])))
   \<and> scheduleFile (state_of [sched_base]) = Some (schedules (state_of [sched_base]))
   \<and> checkDueSchedules env_utc 1704079800000 (state_of [sched_base]) = ([req_base], None)
   \<and> 1704079830000 div 60000 = (1704079800000::int) div 60000
   \<and> filter (\<lambda>q. sched_id (req_schedule q) = sched_id (req_schedule req_base)) [req_base]
       = [req_base]
   \<and> filter (\<lambda>q. sched_id (req_schedule q) = sched_id (req_schedule req_base))
        (fst (checkDueSchedules env_utc 1704079830000
               (run_callbacks [(req_base, False)] (state_of [sched_base])))) = []
   \<and> startup (run_callbacks [(req_base, False)] (state_of [sched_base]))
       = run_callbacks [(req_base, False)] (state_of [sched_base])
   \<and> checkDueSchedules env_utc 1704079830000
        (startup (run_callbacks [(req_base, False)] (state_of [sched_base]))) = ([], None)"
proof -
  have d: "distinct (map sched_id (schedules (state_of [sched_base])))"
    by (simp add: state_of_def)
  have f: "scheduleFile (state_of [sched_base]) = Some (schedules (state_of [sched_base]))"
    by (simp add: state_of_def)
  have t1: "checkDueSchedules env_utc 1704079800000 (state_of [sched_base]) = ([req_base], None)"
    by code_simp
  have r: "req_base \<in> set [req_base]" by simp
  have cb: "fst ` set [(req_base, False)] \<subseteq> set [req_base]"
    "(req_base, False) \<in> set [(req_base, False)]" by simp_all
  have m: "1704079830000 div 60000 = (1704079800000::int) div 60000" by simp
  have t2: "checkDueSchedules env_utc 1704079830000
        (run_callbacks [(req_base, False)] (state_of [sched_base])) = ([], None)"
    by code_simp
  note th = same_minute_tick_sends_once [OF d f t1 r cb m]
  show ?thesis using d f t1 m th t2 by simp
qed

text \<open>
  C3 as stated fails when the send fails (or has not completed): the dedup map is
  unchanged and the second tick of the same minute starts the send again, so there are
  two dispatch calls.
\<close>

theorem failed_send_sends_twice_counterexample:
  "checkDueSchedules env_utc 1704079800000 (state_of [sched_base]) = ([req_base], None)
   \<and> 1704079830000 div 60000 = (1704079800000::int) div 60000
   \<and> run_callbacks [(req_base, True)] (state_of [sched_base]) = state_of [sched_base]
   \<and> checkDueSchedules env_utc 1704079830000
        (run_callbacks [(req_base, True)] (state_of [sched_base])) = ([req_base], None)"
proof -
  have a: "checkDueSchedules env_utc 1704079800000 (state_of [sched_base]) = ([req_base], None)"
    by code_simp
  have b: "run_callbacks [(req_base, True)] (state_of [sched_base]) = state_of [sched_base]"
    by (simp add: sendMail_callback_def)
  have c: "checkDueSchedules env_utc 1704079830000 (state_of [sched_base]) = ([req_base], None)"
    by code_simp
  show ?thesis using a b c by simp
qed


section \<open>Facts about the older tick\<close>

text \<open>
  The older variant decides on the server's clock alone: the timezone of a schedule plays
  no part, a schedule is due when the clock of the server is less than 30 seconds from its
  time of day, and nothing keeps two ticks inside that window from both sending.
\<close>

lemma doseTime_local_timezone: "doseTime_local so t (s\<lparr>timezone := z\<rparr>) = doseTime_local so t s"
  by (simp add: doseTime_local_def)

lemma local_tick_ignores_timezone:
  "checkDueSchedules_local so t (map (\<lambda>s. s\<lparr>timezone := z\<rparr>) ss)
   = map (\<lambda>s. s\<lparr>timezone := z\<rparr>) (checkDueSchedules_local so t ss)"
  by (induction ss) (simp_all add: checkDueSchedules_local_def doseTime_local_timezone)

lemma local_tick_follows_server_clock:
  "timezone sched_base = Some ''UTC+5:30'' \<and> time sched_base = Some ''09:00''
   \<and> checkDueSchedules_local 0 1704079800000 [sched_base] = []
   \<and> checkDueSchedules_local 330 1704079800000 [sched_base] = [sched_base]
   \<and> checkDueSchedules_local 0 1704099600000 [sched_base] = [sched_base]"
  by code_simp

lemma local_tick_window_of_30_seconds:
  "toISO \<lparr>ts = 1704099585000, zone = utcInstance\<rparr> = ''2024-01-01T08:59:45.000Z''
   \<and> checkDueSchedules_local 0 1704099585000 [sched_base] = [sched_base]
   \<and> toISO \<lparr>ts = 1704099615000, zone = utcInstance\<rparr> = ''2024-01-01T09:00:15.000Z''
   \<and> checkDueSchedules_local 0 1704099615000 [sched_base] = [sched_base]
   \<and> checkDueSchedules_local 0 1704099630000 [sched_base] = []"
  by code_simp

end
